theory Spec2Isabelle
  imports Complex_Main "HOL-Library.Word" "HOL-Library.AList"
begin

chapter \<open>Yumi, Yari and Kunai: a shallow embedding\<close>

text \<open>
  The development follows the TypeScript sources \<^verbatim>\<open>src/kunai.ts\<close>, \<^verbatim>\<open>src/yumi.ts\<close>,
  \<^verbatim>\<open>src/utils.ts\<close> and \<^verbatim>\<open>yari.ts\<close>. Objects become records, \<^verbatim>\<open>Map\<close>s and
  plain-object tables become maps or association lists (where the code iterates over
  them), exceptions become values, and every loop becomes a recursive function. Where a
  key from a caller or from the network indexes one of the channel's tables, the
  properties that the table inherits are part of the lookup.
  Library code that is not part of the repository (tweetnacl, bs58, \<^verbatim>\<open>JSON\<close>,
  \<^verbatim>\<open>Buffer\<close>, SEA) is a parameter of the model.
\<close>

section \<open>JavaScript values\<close>

type_synonym bytes = "8 word list"

text \<open>\<^verbatim>\<open>String.prototype.slice(start, end)\<close>: negative positions count from the end,
  both are clamped to the string.\<close>

definition js_slice :: "string \<Rightarrow> int \<Rightarrow> int \<Rightarrow> string" where
  "js_slice s start end =
     (let len = int (length s);
          from = (if start < 0 then max (len + start) 0 else min start len);
          to = (if end < 0 then max (len + end) 0 else min end len)
      in take (nat (to - from)) (drop (nat from) s))"

text \<open>Parsed JSON values, with JavaScript's truthiness.\<close>

datatype json = JNull | JBool bool | JNum int | JStr string | JArr "json list"
  | JObj "(string \<times> json) list"

fun truthy :: "json \<Rightarrow> bool" where
  "truthy JNull = False"
| "truthy (JBool b) = b"
| "truthy (JNum n) = (n \<noteq> 0)"
| "truthy (JStr s) = (s \<noteq> [])"
| "truthy (JArr xs) = True"
| "truthy (JObj kvs) = True"

text \<open>A table that the code creates as the object literal \<^verbatim>\<open>{}\<close> inherits the properties
  of \<^verbatim>\<open>Object.prototype\<close>. Reading \<^verbatim>\<open>table[key]\<close> yields the own property when there is
  one; otherwise, for one of the names below, what the prototype holds under it (a
  function, or for \<^verbatim>\<open>__proto__\<close> the prototype itself: truthy, and without the fields of
  an entry); otherwise \<^verbatim>\<open>undefined\<close>. \<^verbatim>\<open>delete table[key]\<close> removes an own property only.\<close>

definition object_prototype :: "string list" where
  "object_prototype =
     [''constructor'', ''__defineGetter__'', ''__defineSetter__'', ''hasOwnProperty'',
      ''__lookupGetter__'', ''__lookupSetter__'', ''isPrototypeOf'', ''propertyIsEnumerable'',
      ''toString'', ''valueOf'', ''__proto__'', ''toLocaleString'']"

definition inherited :: "string \<Rightarrow> bool" where
  "inherited key = (key \<in> set object_prototype)"

datatype 'a property = Own 'a | Inherited | Missing

definition lookup :: "(string \<rightharpoonup> 'a) \<Rightarrow> string \<Rightarrow> 'a property" where
  "lookup own key =
     (case own key of
        Some v \<Rightarrow> Own v
      | None \<Rightarrow> if inherited key then Inherited else Missing)"

text \<open>\<^verbatim>\<open>toHex\<close> of \<^verbatim>\<open>utils.ts\<close>: two lower-case hexadecimal digits for each byte.\<close>

definition hexdigit :: "nat \<Rightarrow> char" where
  "hexdigit n = ''0123456789abcdef'' ! (n mod 16)"

definition byteHex :: "8 word \<Rightarrow> string" where
  "byteHex b = [hexdigit (unat b div 16), hexdigit (unat b mod 16)]"

definition toHex :: "bytes \<Rightarrow> string" where
  "toHex arr = concat (map byteHex arr)"

section \<open>Wire formats (\<^verbatim>\<open>types.ts\<close>)\<close>

record peerInfo =
  pi_pk :: string
  pi_ek :: string
  pi_last :: int

text \<open>\<^verbatim>\<open>MessagePacket\<close>; an optional field that is absent is \<open>None\<close>.\<close>

record packet =
  p_t :: int
  p_i :: string
  p_pk :: string
  p_ek :: string
  p_n :: string
  p_y :: string
  p_v :: "string option"
  p_c :: "json option"
  p_a :: "string option"
  p_rn :: "json option"
  p_rr :: "string option"

record signedPacket =
  sp_s :: string
  sp_p :: string

record encryptedPacket =
  ep_n :: string
  ep_ek :: string
  ep_e :: string

text \<open>\<^verbatim>\<open>JSON.parse\<close> of a message, as far as \<^verbatim>\<open>onMessage\<close> looks at it: which of the fields
  \<^verbatim>\<open>e\<close>, \<^verbatim>\<open>n\<close>, \<^verbatim>\<open>ek\<close>, \<^verbatim>\<open>p\<close>, \<^verbatim>\<open>s\<close> the object has.\<close>

record unpacked =
  u_e :: "string option"
  u_n :: "string option"
  u_ek :: "string option"
  u_p :: "string option"
  u_s :: "string option"

text \<open>The record written at \<^verbatim>\<open>messages/<hash>\<close>.\<close>

record messageData =
  msg_m :: string
  msg_t :: int
  msg_k :: string

section \<open>Library primitives\<close>

text \<open>
  The functions of tweetnacl, bs58, bs58check, ripemd160, \<^verbatim>\<open>Buffer\<close>, \<^verbatim>\<open>JSON\<close> and SEA that
  the sources call. A result \<open>None\<close> stands for a thrown exception (or, for
  \<^verbatim>\<open>nacl.box.open\<close>, for the \<^verbatim>\<open>null\<close> of a failed decryption).
\<close>

record prims =
  nacl_hash :: "bytes \<Rightarrow> bytes"
  nacl_sign :: "bytes \<Rightarrow> bytes \<Rightarrow> bytes"
  nacl_verify :: "bytes \<Rightarrow> bytes \<Rightarrow> bytes \<Rightarrow> bool"
  nacl_box :: "bytes \<Rightarrow> bytes \<Rightarrow> bytes \<Rightarrow> bytes \<Rightarrow> bytes option"
  nacl_box_open :: "bytes \<Rightarrow> bytes \<Rightarrow> bytes \<Rightarrow> bytes \<Rightarrow> bytes option"
  bs58_decode :: "string \<Rightarrow> bytes option"
  bs58checkEncode :: "bytes \<Rightarrow> string"
  ripemd160Hash :: "bytes \<Rightarrow> bytes"
  toBuffer :: "string \<Rightarrow> bytes"
  toString :: "bytes \<Rightarrow> string"
  toBase64 :: "bytes \<Rightarrow> string"
  fromBase64 :: "string \<Rightarrow> bytes option"
  fromHex :: "string \<Rightarrow> bytes"
  parse_unpacked :: "string \<Rightarrow> unpacked option"
  parse_packet :: "string \<Rightarrow> packet option"
  JSON_parse :: "string \<Rightarrow> json option"
  JSON_stringify :: "json \<Rightarrow> string"
  stringify_packet :: "packet \<Rightarrow> string"
  stringify_signed :: "signedPacket \<Rightarrow> string"
  stringify_encrypted :: "encryptedPacket \<Rightarrow> string"
  js_ToString :: "json \<Rightarrow> string"
  sea_secret :: "string \<Rightarrow> (string \<times> string \<times> string \<times> string) option \<Rightarrow> string option"
  sea_encrypt :: "json \<Rightarrow> string \<Rightarrow> json option"

section \<open>Kunai: the send path\<close>

definition CHUNK_SIZE :: int where
  "CHUNK_SIZE = 10000"

definition CACHE_RETENTION :: int where
  "CACHE_RETENTION = 5 * 60 * 1000"

text \<open>\<^verbatim>\<open>this.chunkSize = opts?.chunkSize || CHUNK_SIZE\<close>\<close>

definition chunkSize_of :: "int option \<Rightarrow> int" where
  "chunkSize_of opt = (case opt of None \<Rightarrow> CHUNK_SIZE | Some c \<Rightarrow> if c \<noteq> 0 then c else CHUNK_SIZE)"

record metadata =
  md_name :: string
  md_type :: string
  md_size :: int
  md_totalChunks :: int
  md_timestamp :: int
  md_sender :: string

record chunkData =
  cd_index :: int
  cd_data :: string
  cd_timestamp :: int
  cd_fileId :: string

record cacheEntry =
  ce_chunks :: "int \<rightharpoonup> string"
  ce_metadata :: metadata
  ce_timestamp :: int

text \<open>The two things the upload loop of \<^verbatim>\<open>sendFile\<close> writes: the local \<^verbatim>\<open>chunksMap\<close> and
  the entries added to the graph-store set \<^verbatim>\<open>chunks/<fileId>\<close>, in write order.\<close>

record upload =
  chunksMap :: "int \<rightharpoonup> string"
  fileChunksNode :: "chunkData list"

text \<open>\<^verbatim>\<open>Math.ceil(base64Data.length / this.chunkSize)\<close>\<close>

definition totalChunks_of :: "string \<Rightarrow> int \<Rightarrow> int" where
  "totalChunks_of base64Data cs = \<lceil>real_of_int (int (length base64Data)) / real_of_int cs\<rceil>"

definition batchSize :: int where
  "batchSize = 1"

text \<open>The inner loop \<^verbatim>\<open>for (let i = batchStart; i < batchEnd; i++)\<close>; \<open>clock i\<close> is the
  reading of \<^verbatim>\<open>Date.now()\<close> when chunk \<open>i\<close> is written.\<close>

function processBatch ::
  "string \<Rightarrow> int \<Rightarrow> string \<Rightarrow> (int \<Rightarrow> int) \<Rightarrow> int \<Rightarrow> int \<Rightarrow> upload \<Rightarrow> upload" where
  "processBatch base64Data cs fileId clock i batchEnd u =
     (if i < batchEnd then
        let chunk = js_slice base64Data (i * cs) ((i + 1) * cs);
            u1 = u\<lparr>chunksMap := (chunksMap u)(i \<mapsto> chunk)\<rparr>;
            entry = \<lparr>cd_index = i, cd_data = chunk, cd_timestamp = clock i, cd_fileId = fileId\<rparr>;
            u2 = u1\<lparr>fileChunksNode := fileChunksNode u1 @ [entry]\<rparr>
        in processBatch base64Data cs fileId clock (i + 1) batchEnd u2
      else u)"
  by pat_completeness auto
termination
  by (relation "measure (\<lambda>(base64Data, cs, fileId, clock, i, batchEnd, u). nat (batchEnd - i))") auto

text \<open>The outer loop
  \<^verbatim>\<open>for (let batchStart = 0; batchStart < totalChunks; batchStart += batchSize)\<close>.\<close>

function uploadBatches ::
  "string \<Rightarrow> int \<Rightarrow> string \<Rightarrow> (int \<Rightarrow> int) \<Rightarrow> int \<Rightarrow> int \<Rightarrow> upload \<Rightarrow> upload" where
  "uploadBatches base64Data cs fileId clock batchStart totalChunks u =
     (if batchStart < totalChunks then
        let batchEnd = min (batchStart + batchSize) totalChunks;
            u' = processBatch base64Data cs fileId clock batchStart batchEnd u
        in uploadBatches base64Data cs fileId clock (batchStart + batchSize) totalChunks u'
      else u)"
  by pat_completeness auto
termination
  by (relation "measure (\<lambda>(base64Data, cs, fileId, clock, batchStart, totalChunks, u).
        nat (totalChunks - batchStart))") (auto simp: batchSize_def)

text \<open>The file handed to \<^verbatim>\<open>sendFile\<close>, and the replies of the two RPC handlers (object
  literals; a field that the literal does not have is \<open>None\<close>).\<close>

record fileInfo =
  f_name :: string
  f_size :: int
  f_type :: "string option"

record reply =
  success :: bool
  error :: "string option"
  r_fileId :: "string option"
  r_chunks :: "(int \<times> string) list option"

record fileResult =
  fr_filename :: string
  fr_size :: int
  fr_data :: bytes
  fr_fileId :: string

datatype kunai_error = FileDataRequired

text \<open>What the transfer engine does to the outside: events it emits and RPCs it invokes
  on the channel.\<close>

datatype action =
    EmitTransferComplete string
  | EmitFileReceived fileResult
  | RpcTransferConfirmed string string
  | RpcRequestChunks string string "int list"

record kunai =
  chunkSize :: int
  chunkCache :: "(string \<times> cacheEntry) list"
  gunFiles :: "(string \<times> metadata) list"
  gunChunks :: "(string \<times> chunkData) list"
  k_address :: string

text \<open>\<^verbatim>\<open>sendFile\<close>. The transfer code \<open>fileId\<close> is drawn at random by
  \<^verbatim>\<open>generateTransferCode\<close> and is an input here; \<open>tMeta\<close>, \<open>clock\<close> and \<open>tCache\<close> are the
  readings of \<^verbatim>\<open>Date.now()\<close> for the metadata, for each chunk and for the cache entry.\<close>

definition sendFile ::
  "prims \<Rightarrow> kunai \<Rightarrow> string \<Rightarrow> int \<Rightarrow> (int \<Rightarrow> int) \<Rightarrow> int \<Rightarrow> fileInfo \<Rightarrow> bytes option
    \<Rightarrow> kunai_error + (string \<times> kunai \<times> action list)" where
  "sendFile P k fileId tMeta clock tCache file data =
     (case data of
        None \<Rightarrow> Inl FileDataRequired
      | Some buffer \<Rightarrow>
          let base64Data = toBase64 P buffer;
              totalChunks = totalChunks_of base64Data (chunkSize k);
              metadata = \<lparr>md_name = f_name file,
                          md_type = (case f_type file of
                                       None \<Rightarrow> ''application/octet-stream''
                                     | Some ty \<Rightarrow> if ty \<noteq> [] then ty else ''application/octet-stream''),
                          md_size = f_size file,
                          md_totalChunks = totalChunks,
                          md_timestamp = tMeta,
                          md_sender = k_address k\<rparr>;
              k1 = k\<lparr>gunFiles := AList.update fileId metadata (gunFiles k)\<rparr>;
              u = uploadBatches base64Data (chunkSize k) fileId clock 0 totalChunks
                    \<lparr>chunksMap = Map.empty, fileChunksNode = []\<rparr>;
              k2 = k1\<lparr>gunChunks := gunChunks k1 @ map (Pair fileId) (fileChunksNode u)\<rparr>;
              k3 = k2\<lparr>chunkCache := AList.update fileId
                         \<lparr>ce_chunks = chunksMap u, ce_metadata = metadata, ce_timestamp = tCache\<rparr>
                         (chunkCache k2)\<rparr>
          in Inr (fileId, k3, [EmitTransferComplete fileId]))"

subsection \<open>Retransmission handlers and the cache sweeper\<close>

text \<open>The loop \<^verbatim>\<open>for (const index of missingChunks)\<close> of the \<^verbatim>\<open>request-chunks\<close> handler.\<close>

fun collectChunks :: "(int \<rightharpoonup> string) \<Rightarrow> int list \<Rightarrow> (int \<times> string) list \<Rightarrow> (int \<times> string) list" where
  "collectChunks m [] chunks = chunks"
| "collectChunks m (index # rest) chunks =
     (case m index of
        Some chunkData \<Rightarrow>
          if chunkData \<noteq> [] then collectChunks m rest (chunks @ [(index, chunkData)])
          else collectChunks m rest chunks
      | None \<Rightarrow> collectChunks m rest chunks)"

definition request_chunks :: "kunai \<Rightarrow> string \<Rightarrow> int list \<Rightarrow> kunai \<times> reply" where
  "request_chunks k fileId missingChunks =
     (case map_of (chunkCache k) fileId of
        None \<Rightarrow> (k, \<lparr>success = False, error = Some ''File not in cache'', r_fileId = None, r_chunks = None\<rparr>)
      | Some cached \<Rightarrow>
          (k, \<lparr>success = True, error = None, r_fileId = Some fileId,
               r_chunks = Some (collectChunks (ce_chunks cached) missingChunks [])\<rparr>))"

definition transfer_confirmed :: "kunai \<Rightarrow> string \<Rightarrow> kunai \<times> reply" where
  "transfer_confirmed k fileId =
     (k\<lparr>chunkCache := AList.delete fileId (chunkCache k)\<rparr>,
      \<lparr>success = True, error = None, r_fileId = None, r_chunks = None\<rparr>)"

text \<open>One run of the \<^verbatim>\<open>setInterval\<close> callback of \<^verbatim>\<open>startCacheCleanup\<close> at time \<open>now\<close>.\<close>

definition cacheCleanup :: "kunai \<Rightarrow> int \<Rightarrow> kunai" where
  "cacheCleanup k now =
     (let toDelete = map fst (filter (\<lambda>(fileId, cached). now - ce_timestamp cached > CACHE_RETENTION)
                                (chunkCache k))
      in k\<lparr>chunkCache := fold AList.delete toDelete (chunkCache k)\<rparr>)"

text \<open>The things that happen to the sender cache: a sweeper tick, the two RPC handlers,
  the end of another \<^verbatim>\<open>sendFile\<close>, which stores its entry under the transfer code that it
  drew (\<^verbatim>\<open>chunkCache.set(fileId, ...)\<close>; the code is one of 32400 and is not compared with
  the keys of the cache), and \<^verbatim>\<open>destroy\<close>, which clears the cache.\<close>

datatype cache_event =
    Tick int
  | RequestChunks string "int list"
  | TransferConfirmed string
  | Cached string cacheEntry
  | Destroy

fun cache_step :: "kunai \<Rightarrow> cache_event \<Rightarrow> kunai" where
  "cache_step k (Tick now) = cacheCleanup k now"
| "cache_step k (RequestChunks fileId missingChunks) = fst (request_chunks k fileId missingChunks)"
| "cache_step k (TransferConfirmed fileId) = fst (transfer_confirmed k fileId)"
| "cache_step k (Cached fileId entry) = k\<lparr>chunkCache := AList.update fileId entry (chunkCache k)\<rparr>"
| "cache_step k Destroy = k\<lparr>chunkCache := []\<rparr>"

text \<open>An event leaves the entry of \<open>fileId\<close>, created at \<open>created\<close>, alone when it is a
  tick within the retention time, a request, or a confirmation or upload of another
  transfer. An upload under the same transfer code and the destruction of the engine do
  not.\<close>

fun spares :: "string \<Rightarrow> int \<Rightarrow> cache_event \<Rightarrow> bool" where
  "spares fileId created (Tick now) = (now - created \<le> CACHE_RETENTION)"
| "spares fileId created (RequestChunks f missingChunks) = True"
| "spares fileId created (TransferConfirmed f) = (f \<noteq> fileId)"
| "spares fileId created (Cached f entry) = (f \<noteq> fileId)"
| "spares fileId created Destroy = False"

section \<open>Kunai: the receive path\<close>

text \<open>A node of the set \<^verbatim>\<open>chunks/<fileId>\<close> as the subscription delivers it; a field is
  \<open>None\<close> when it is \<^verbatim>\<open>undefined\<close>, and the node itself may be \<^verbatim>\<open>null\<close>.\<close>

record gunChunk =
  gc_index :: "int option"
  gc_data :: "string option"

text \<open>The variables that the listener of one file closes over.\<close>

record receiver =
  receivedChunks :: "int \<rightharpoonup> string"
  collectedChunks :: int
  isProcessing :: bool
  timeoutId :: bool
  processedChunkIds :: "string set"
  listening :: bool

definition maxSweeps :: int where
  "maxSweeps = 5"

text \<open>The test \<^verbatim>\<open>receivedChunks[i]\<close>: the index has a non-empty string.\<close>

definition has_chunk :: "(int \<rightharpoonup> string) \<Rightarrow> int \<Rightarrow> bool" where
  "has_chunk rc i = (case rc i of None \<Rightarrow> False | Some d \<Rightarrow> d \<noteq> [])"

text \<open>\<^verbatim>\<open>chunk && typeof chunk.index !== 'undefined' && chunk.data\<close>\<close>

definition valid_chunk :: "gunChunk option \<Rightarrow> (int \<times> string) option" where
  "valid_chunk chunk =
     (case chunk of
        None \<Rightarrow> None
      | Some c \<Rightarrow>
          (case gc_index c of
             None \<Rightarrow> None
           | Some index \<Rightarrow>
               (case gc_data c of
                  None \<Rightarrow> None
                | Some d \<Rightarrow> if d \<noteq> [] then Some (index, d) else None)))"

text \<open>\<^verbatim>\<open>if (!receivedChunks[chunk.index]) { receivedChunks[chunk.index] = chunk.data;
  collectedChunks++ }\<close>\<close>

definition storeChunk :: "receiver \<Rightarrow> int \<Rightarrow> string \<Rightarrow> receiver" where
  "storeChunk r index d =
     (if \<not> has_chunk (receivedChunks r) index
      then r\<lparr>receivedChunks := (receivedChunks r)(index \<mapsto> d), collectedChunks := collectedChunks r + 1\<rparr>
      else r)"

text \<open>The callback of the chunk subscription, up to the call of \<^verbatim>\<open>performSweep\<close>; the
  flag tells whether the sweeps start.\<close>

definition chunkListener :: "metadata \<Rightarrow> receiver \<Rightarrow> gunChunk option \<Rightarrow> string \<Rightarrow> receiver \<times> bool" where
  "chunkListener metadata r chunk chunkId =
     (case valid_chunk chunk of
        None \<Rightarrow> (r, False)
      | Some (index, d) \<Rightarrow>
          if isProcessing r then (r, False)
          else if chunkId \<in> processedChunkIds r then (r, False)
          else
            let r1 = r\<lparr>processedChunkIds := insert chunkId (processedChunkIds r)\<rparr>;
                r2 = storeChunk r1 index d
            in if collectedChunks r2 \<ge> md_totalChunks metadata
               then (r2\<lparr>isProcessing := True, timeoutId := False, listening := False\<rparr>, True)
               else (r2, False))"

text \<open>The callback of the one-shot scan \<^verbatim>\<open>map().once\<close> of a sweep.\<close>

definition sweepChunk :: "receiver \<Rightarrow> gunChunk option \<Rightarrow> receiver" where
  "sweepChunk r chunk =
     (case valid_chunk chunk of
        None \<Rightarrow> r
      | Some (index, d) \<Rightarrow> storeChunk r index d)"

text \<open>The loop \<^verbatim>\<open>for (let i = 0; i < metadata.totalChunks; i++)\<close> that builds
  \<^verbatim>\<open>base64String\<close>, \<^verbatim>\<open>allChunksPresent\<close> and \<^verbatim>\<open>missingChunks\<close>; it occurs three times in
  the source, with the same body.\<close>

function assemble ::
  "(int \<rightharpoonup> string) \<Rightarrow> int \<Rightarrow> int \<Rightarrow> string \<Rightarrow> bool \<Rightarrow> int list \<Rightarrow> string \<times> bool \<times> int list" where
  "assemble rc totalChunks i base64String allChunksPresent missingChunks =
     (if i < totalChunks then
        (case rc i of
           Some d \<Rightarrow>
             if d \<noteq> [] then assemble rc totalChunks (i + 1) (base64String @ d) allChunksPresent missingChunks
             else assemble rc totalChunks (i + 1) base64String False (missingChunks @ [i])
         | None \<Rightarrow> assemble rc totalChunks (i + 1) base64String False (missingChunks @ [i]))
      else (base64String, allChunksPresent, missingChunks))"
  by pat_completeness auto
termination
  by (relation "measure (\<lambda>(rc, totalChunks, i, base64String, allChunksPresent, missingChunks).
        nat (totalChunks - i))") auto

text \<open>\<^verbatim>\<open>reassembleFile\<close>: decode and emit \<^verbatim>\<open>file-received\<close>; a decoding error is caught
  and nothing is emitted.\<close>

definition reassembleFile :: "prims \<Rightarrow> string \<Rightarrow> metadata \<Rightarrow> string \<Rightarrow> action list" where
  "reassembleFile P base64String metadata fileId =
     (case fromBase64 P base64String of
        None \<Rightarrow> []
      | Some bytes \<Rightarrow>
          [EmitFileReceived \<lparr>fr_filename = md_name metadata, fr_size = md_size metadata,
                             fr_data = bytes, fr_fileId = fileId\<rparr>])"

text \<open>The end of the final sweeps (\<^verbatim>\<open>// Final reassembly attempt\<close>).\<close>

definition finishSweep :: "prims \<Rightarrow> metadata \<Rightarrow> string \<Rightarrow> receiver \<Rightarrow> receiver \<times> action list" where
  "finishSweep P metadata fileId r =
     (case assemble (receivedChunks r) (md_totalChunks metadata) 0 [] True [] of
        (base64String, allChunksPresent, missingChunks) \<Rightarrow>
          if allChunksPresent then (r, reassembleFile P base64String metadata fileId)
          else (r\<lparr>isProcessing := False\<rparr>, []))"

text \<open>\<^verbatim>\<open>performSweep\<close>; \<open>scan n\<close> is what the one-shot scan of sweep \<open>n\<close> delivers before
  the timer of that sweep fires.\<close>

function performSweep ::
  "prims \<Rightarrow> (int \<Rightarrow> gunChunk option list) \<Rightarrow> metadata \<Rightarrow> string \<Rightarrow> receiver \<Rightarrow> int
    \<Rightarrow> receiver \<times> action list" where
  "performSweep P scan metadata fileId r sweepAttempts =
     (let sweepAttempts' = sweepAttempts + 1;
          r' = foldl sweepChunk r (scan sweepAttempts');
          missingAfter = md_totalChunks metadata - collectedChunks r'
      in if missingAfter > 0 \<and> sweepAttempts' < maxSweeps
         then performSweep P scan metadata fileId r' sweepAttempts'
         else finishSweep P metadata fileId r')"
  by pat_completeness auto
termination
  by (relation "measure (\<lambda>(P, scan, metadata, fileId, r, sweepAttempts). nat (maxSweeps - sweepAttempts))")
     auto

text \<open>The chunk subscription as a whole: the listener, then the sweeps when they start.\<close>

definition onChunk ::
  "prims \<Rightarrow> (int \<Rightarrow> gunChunk option list) \<Rightarrow> metadata \<Rightarrow> string \<Rightarrow> receiver \<Rightarrow> gunChunk option
    \<Rightarrow> string \<Rightarrow> receiver \<times> action list" where
  "onChunk P scan metadata fileId r chunk chunkId =
     (case chunkListener metadata r chunk chunkId of
        (r', start) \<Rightarrow> if start then performSweep P scan metadata fileId r' 0 else (r', []))"

text \<open>The end of the timeout sweeps; \<open>peerAddresses\<close> are the keys of the channel's peer
  table.\<close>

definition finishTimeoutSweep ::
  "prims \<Rightarrow> string list \<Rightarrow> metadata \<Rightarrow> string \<Rightarrow> receiver \<Rightarrow> receiver \<times> action list" where
  "finishTimeoutSweep P peerAddresses metadata fileId r =
     (case assemble (receivedChunks r) (md_totalChunks metadata) 0 [] True [] of
        (base64String, allChunksPresent, missingChunks) \<Rightarrow>
          if allChunksPresent
          then (r, reassembleFile P base64String metadata fileId @
                   (if md_sender metadata \<noteq> [] then [RpcTransferConfirmed (md_sender metadata) fileId]
                    else []))
          else if md_sender metadata \<noteq> [] \<and> md_sender metadata \<in> set peerAddresses
          then (r, [RpcRequestChunks (md_sender metadata) fileId missingChunks])
          else (r\<lparr>isProcessing := False\<rparr>, []))"

function performTimeoutSweep ::
  "prims \<Rightarrow> (int \<Rightarrow> gunChunk option list) \<Rightarrow> string list \<Rightarrow> metadata \<Rightarrow> string \<Rightarrow> receiver \<Rightarrow> int
    \<Rightarrow> receiver \<times> action list" where
  "performTimeoutSweep P scan peerAddresses metadata fileId r sweepAttempts =
     (let sweepAttempts' = sweepAttempts + 1;
          r' = foldl sweepChunk r (scan sweepAttempts');
          missingAfter = md_totalChunks metadata - collectedChunks r'
      in if missingAfter > 0 \<and> sweepAttempts' < maxSweeps
         then performTimeoutSweep P scan peerAddresses metadata fileId r' sweepAttempts'
         else finishTimeoutSweep P peerAddresses metadata fileId r')"
  by pat_completeness auto
termination
  by (relation "measure (\<lambda>(P, scan, peerAddresses, metadata, fileId, r, sweepAttempts).
        nat (maxSweeps - sweepAttempts))") auto

text \<open>The callback of the per-file timeout.\<close>

definition onTimeout ::
  "prims \<Rightarrow> (int \<Rightarrow> gunChunk option list) \<Rightarrow> string list \<Rightarrow> metadata \<Rightarrow> string \<Rightarrow> receiver
    \<Rightarrow> receiver \<times> action list" where
  "onTimeout P scan peerAddresses metadata fileId r =
     (if \<not> isProcessing r \<and> collectedChunks r > 0
      then performTimeoutSweep P scan peerAddresses metadata fileId
             (r\<lparr>isProcessing := True, listening := False\<rparr>) 0
      else (r, []))"

text \<open>The callback that \<^verbatim>\<open>requestMissingChunks\<close> registers for the reply to
  \<^verbatim>\<open>request-chunks\<close>. A rejected promise ends in the \<^verbatim>\<open>catch\<close> that clears
  \<^verbatim>\<open>isProcessing\<close>; a reply with \<^verbatim>\<open>success\<close> and without \<^verbatim>\<open>chunks\<close> makes the callback
  throw before it changes anything.\<close>

definition onChunksReply ::
  "prims \<Rightarrow> metadata \<Rightarrow> string \<Rightarrow> string \<Rightarrow> receiver \<Rightarrow> reply \<Rightarrow> receiver \<times> action list" where
  "onChunksReply P metadata fileId senderAddress r response =
     (if \<not> success response then (r\<lparr>isProcessing := False\<rparr>, [])
      else
        (case r_chunks response of
           None \<Rightarrow> (r, [])
         | Some chunks \<Rightarrow>
             let r1 = r\<lparr>receivedChunks :=
                        foldl (\<lambda>rc (index, d). rc(index \<mapsto> d)) (receivedChunks r) chunks\<rparr>
             in (case assemble (receivedChunks r1) (md_totalChunks metadata) 0 [] True [] of
                   (base64String, allChunksPresent, stillMissing) \<Rightarrow>
                     if allChunksPresent
                     then (r1, reassembleFile P base64String metadata fileId @
                               [RpcTransferConfirmed senderAddress fileId])
                     else (r1\<lparr>isProcessing := False\<rparr>, []))))"

text \<open>The stored string of an index (empty when there is none), and the concatenation
  of the stored strings of the indices \<open>0\<close> to \<open>totalChunks - 1\<close> in ascending order.\<close>

definition stored :: "(int \<rightharpoonup> string) \<Rightarrow> int \<Rightarrow> string" where
  "stored rc i = (case rc i of None \<Rightarrow> [] | Some d \<Rightarrow> d)"

definition concat_stored :: "(int \<rightharpoonup> string) \<Rightarrow> int \<Rightarrow> string" where
  "concat_stored rc totalChunks = concat (map (stored rc) [0..totalChunks - 1])"

section \<open>Yumi: the channel\<close>

text \<open>A pending RPC callback is a function of the caller. The channel calls it inside the
  \<^verbatim>\<open>try\<close> block of \<^verbatim>\<open>onMessage\<close>, so what matters of a call is whether it returns or
  throws: \<open>throws cb v\<close> says that the call with the value \<open>v\<close> throws, and \<open>after cb v\<close> is
  the same function after that call (a closure may change from call to call).\<close>

codatatype callback = Callback (throws: "json \<Rightarrow> bool") (after: "json \<Rightarrow> callback")

text \<open>The instance: its keys, the peer table (a plain object that the code counts and
  iterates over, hence an association list of its own properties), the seen table, the
  RPC tables (own properties), and the writes to \<^verbatim>\<open>messages/\<close> in the graph store. \<open>'fn\<close>
  are registered API functions, which are opaque; \<open>'cb\<close> are the pending callbacks, taken as
  \<^typ>\<open>callback\<close> wherever the channel calls one.\<close>

record ('fn, 'cb) yumi =
  identifier' :: string
  timeout :: int
  own_pk :: string
  own_ek :: string
  publicKey :: bytes
  secretKey :: bytes
  boxSecretKey :: bytes
  peers :: "(string \<times> peerInfo) list"
  seen :: "string \<rightharpoonup> int"
  lastpeercount :: int
  api :: "string \<rightharpoonup> 'fn"
  callbacks :: "string \<rightharpoonup> 'cb"
  serveraddress :: "string option"
  messages :: "(string \<times> messageData) list"

text \<open>The fields that a caller of \<^verbatim>\<open>makePacket\<close> supplies.\<close>

record params =
  pa_y :: string
  pa_v :: "string option"
  pa_c :: "json option"
  pa_a :: "string option"
  pa_rn :: "json option"
  pa_rr :: "string option"

datatype error =
    NotSeenNoPublicKey string
  | NotSeenNoEncryptionKey string
  | InvalidBase58
  | BoxFailed

text \<open>Events emitted by the channel, and the calls it makes: an API function with the
  caller's address, the arguments and the key and nonce that its reply callback closes
  over; the pending callback stored under a key with the parsed result; and the call of
  what a table inherits under a name, which returns or throws without a reply and
  without a change to the instance. The listeners of the events are taken to return.\<close>

datatype ('fn, 'cb) event =
    Seen string
  | Server string
  | Connections int
  | Message string json packet
  | Rpc string "json option" json "json option"
  | RpcResponse string "json option" json
  | Ping string
  | Left string
  | Timeout string
  | CallApi 'fn string json string "json option"
  | CallCallback string 'cb json
  | CallInherited string

text \<open>An argument that may be a function (the overloaded \<^verbatim>\<open>rpc\<close>).\<close>

datatype 'cb jsarg = ArgFn 'cb | ArgVal json

text \<open>The property key that a value denotes in \<^verbatim>\<open>table[value]\<close>: a string is its own
  key, an object is \<^verbatim>\<open>[object Object]\<close>, \<^verbatim>\<open>undefined\<close> is \<^verbatim>\<open>undefined\<close>.\<close>

definition property_key :: "prims \<Rightarrow> json option \<Rightarrow> string" where
  "property_key P x =
     (case x of
        None \<Rightarrow> ''undefined''
      | Some (JStr s) \<Rightarrow> s
      | Some (JObj kvs) \<Rightarrow> ''[object Object]''
      | Some j \<Rightarrow> js_ToString P j)"

text \<open>Decimal digits of an array index.\<close>

function decimal :: "nat \<Rightarrow> string" where
  "decimal n = (if n < 10 then [char_of (48 + n)] else decimal (n div 10) @ [char_of (48 + n mod 10)])"
  by pat_completeness auto
termination
  by (relation "measure id") auto

text \<open>What \<^verbatim>\<open>JSON.stringify\<close> makes of a \<^verbatim>\<open>Uint8Array\<close>: an object of its indexed
  elements.\<close>

definition uint8array_json :: "bytes \<Rightarrow> json" where
  "uint8array_json arr = JObj (map (\<lambda>i. (decimal i, JNum (uint (arr ! i)))) [0..<length arr])"

definition encodeaddress :: "prims \<Rightarrow> bytes \<Rightarrow> string" where
  "encodeaddress P material = bs58checkEncode P (0x55 # ripemd160Hash P (nacl_hash P material))"

text \<open>\<^verbatim>\<open>address(pk)\<close>; the empty string stands for a missing argument as well.\<close>

definition address :: "prims \<Rightarrow> ('fn, 'cb) yumi \<Rightarrow> string \<Rightarrow> string" where
  "address P bugout pkstr =
     (if pkstr \<noteq> [] \<and> length pkstr > 40 then
        (case bs58_decode P pkstr of
           Some decoded \<Rightarrow> encodeaddress P decoded
         | None \<Rightarrow> encodeaddress P (toBuffer P pkstr))
      else if pkstr = [] then encodeaddress P (publicKey bugout)
      else encodeaddress P (toBuffer P pkstr))"

definition makePacket :: "prims \<Rightarrow> ('fn, 'cb) yumi \<Rightarrow> int \<Rightarrow> bytes \<Rightarrow> params \<Rightarrow> string" where
  "makePacket P bugout now nonce ps =
     (let p = \<lparr>p_t = now, p_i = identifier' bugout, p_pk = own_pk bugout, p_ek = own_ek bugout,
                p_n = toHex nonce, p_y = pa_y ps, p_v = pa_v ps, p_c = pa_c ps, p_a = pa_a ps,
                p_rn = pa_rn ps, p_rr = pa_rr ps\<rparr>;
          pe = stringify_packet P p;
          signature = nacl_sign P (toBuffer P pe) (secretKey bugout)
      in stringify_signed P \<lparr>sp_s = toHex signature, sp_p = pe\<rparr>)"

text \<open>\<^verbatim>\<open>encryptPacket\<close>. Its key into the peer table, like the keys of \<^verbatim>\<open>sawPeer\<close> and of
  the presence subscription, is computed by \<^verbatim>\<open>address\<close>: the base58check text of 25 bytes,
  which is longer than every name of \<^verbatim>\<open>Object.prototype\<close>, so that the own properties
  decide these lookups.\<close>

definition encryptPacket :: "prims \<Rightarrow> ('fn, 'cb) yumi \<Rightarrow> bytes \<Rightarrow> string \<Rightarrow> string \<Rightarrow> error + string" where
  "encryptPacket P bugout nonce pkstr pkt =
     (let addr = address P bugout pkstr in
      case map_of (peers bugout) addr of
        Some peer \<Rightarrow>
          (case bs58_decode P (pi_ek peer) of
             None \<Rightarrow> Inl InvalidBase58
           | Some ekBytes \<Rightarrow>
               (case nacl_box P (toBuffer P pkt) nonce ekBytes (boxSecretKey bugout) of
                  None \<Rightarrow> Inl BoxFailed
                | Some encrypted \<Rightarrow>
                    Inr (stringify_encrypted P
                           \<lparr>ep_n = toHex nonce, ep_ek = own_ek bugout, ep_e = toHex encrypted\<rparr>)))
      | None \<Rightarrow> Inl (NotSeenNoEncryptionKey addr))"

definition sendRaw :: "prims \<Rightarrow> ('fn, 'cb) yumi \<Rightarrow> int \<Rightarrow> string \<Rightarrow> ('fn, 'cb) yumi" where
  "sendRaw P bugout now message =
     (let messageBuffer = toBuffer P message;
          messageData = \<lparr>msg_m = toBase64 P messageBuffer, msg_t = now,
                          msg_k = toHex (drop 16 (nacl_hash P messageBuffer))\<rparr>;
          hash = msg_k messageData
      in bugout\<lparr>messages := AList.update hash messageData (messages bugout),
                 seen := (seen bugout)(hash \<mapsto> now)\<rparr>)"

definition makeEncryptSendPacket ::
  "prims \<Rightarrow> ('fn, 'cb) yumi \<Rightarrow> int \<Rightarrow> bytes \<Rightarrow> bytes \<Rightarrow> string \<Rightarrow> params \<Rightarrow> error + ('fn, 'cb) yumi" where
  "makeEncryptSendPacket P bugout now nonce boxNonce pkstr ps =
     (let pkt = makePacket P bugout now nonce ps in
      case encryptPacket P bugout boxNonce pkstr pkt of
        Inl e \<Rightarrow> Inl e
      | Inr encrypted \<Rightarrow> Inr (sendRaw P bugout now encrypted))"

definition updateConnections :: "('fn, 'cb) yumi \<Rightarrow> ('fn, 'cb) yumi \<times> ('fn, 'cb) event list" where
  "updateConnections bugout =
     (let peerCount = int (length (peers bugout)) in
      if peerCount \<noteq> lastpeercount bugout
      then (bugout\<lparr>lastpeercount := peerCount\<rparr>, [Connections peerCount])
      else (bugout, []))"

text \<open>The branch of \<^verbatim>\<open>sawPeer\<close> for a peer that is new or was last seen more than the
  timeout ago.\<close>

definition newPeer ::
  "('fn, 'cb) yumi \<Rightarrow> string \<Rightarrow> string \<Rightarrow> string \<Rightarrow> int \<Rightarrow> ('fn, 'cb) yumi \<times> ('fn, 'cb) event list" where
  "newPeer bugout addr pkstr ekstr t =
     (let b1 = bugout\<lparr>peers := AList.update addr \<lparr>pi_pk = pkstr, pi_ek = ekstr, pi_last = t\<rparr>
                                  (peers bugout)\<rparr>;
          b2 = (if addr = identifier' b1 then b1\<lparr>serveraddress := Some addr\<rparr> else b1)
      in case updateConnections b2 of
           (b3, evs) \<Rightarrow> (b3, Seen addr # (if addr = identifier' b1 then [Server addr] else []) @ evs))"

definition sawPeer ::
  "prims \<Rightarrow> ('fn, 'cb) yumi \<Rightarrow> string \<Rightarrow> string \<Rightarrow> int \<Rightarrow> ('fn, 'cb) yumi \<times> ('fn, 'cb) event list" where
  "sawPeer P bugout pkstr ekstr t =
     (let addr = address P bugout pkstr in
      if addr \<noteq> address P bugout [] then
        (case map_of (peers bugout) addr of
           None \<Rightarrow> newPeer bugout addr pkstr ekstr t
         | Some peer \<Rightarrow>
             if pi_last peer + timeout bugout < t then newPeer bugout addr pkstr ekstr t
             else (bugout\<lparr>peers := AList.update addr (peer\<lparr>pi_ek := ekstr, pi_last := t\<rparr>)
                                     (peers bugout)\<rparr>, []))
      else (bugout, []))"

text \<open>\<^verbatim>\<open>rpcCall\<close>. The name of the call comes from the packet. A registered function is
  handed to user code together with what its reply callback needs; a name of
  \<^verbatim>\<open>Object.prototype\<close> passes the test \<^verbatim>\<open>bugout.api[call]\<close> as well, and what is inherited
  under it is called in the same way (none of these functions calls the reply callback,
  and \<^verbatim>\<open>__proto__\<close> is no function, which throws); otherwise the error reply is sent at
  once, and an exception of \<^verbatim>\<open>encryptPacket\<close> ends the processing of the message.\<close>

definition rpcCall ::
  "prims \<Rightarrow> ('fn, 'cb) yumi \<Rightarrow> int \<Rightarrow> bytes \<Rightarrow> bytes \<Rightarrow> string \<Rightarrow> json option \<Rightarrow> json \<Rightarrow> json option
    \<Rightarrow> ('fn, 'cb) yumi \<times> ('fn, 'cb) event list" where
  "rpcCall P bugout now nonceBytes boxNonce pkstr call args nonce =
     (case lookup (api bugout) (property_key P call) of
        Own fn \<Rightarrow> (bugout, [CallApi fn (address P bugout pkstr) args pkstr nonce])
      | Inherited \<Rightarrow> (bugout, [CallInherited (property_key P call)])
      | Missing \<Rightarrow>
          (case makeEncryptSendPacket P bugout now nonceBytes boxNonce pkstr
                  \<lparr>pa_y = ''rr'', pa_v = None, pa_c = None, pa_a = None, pa_rn = nonce,
                   pa_rr = Some (JSON_stringify P (JObj [(''error'', JStr ''No such API call.'')]))\<rparr> of
             Inl e \<Rightarrow> (bugout, [])
           | Inr b' \<Rightarrow> (b', [])))"

text \<open>The reply callback that \<^verbatim>\<open>rpcCall\<close> hands to an API function.\<close>

definition rpcReply ::
  "prims \<Rightarrow> ('fn, 'cb) yumi \<Rightarrow> int \<Rightarrow> bytes \<Rightarrow> bytes \<Rightarrow> string \<Rightarrow> json option \<Rightarrow> json option
    \<Rightarrow> error + ('fn, 'cb) yumi" where
  "rpcReply P bugout now nonceBytes boxNonce pkstr nonce result =
     makeEncryptSendPacket P bugout now nonceBytes boxNonce pkstr
       \<lparr>pa_y = ''rr'', pa_v = None, pa_c = None, pa_a = None, pa_rn = nonce,
        pa_rr = map_option (JSON_stringify P) result\<rparr>"

text \<open>\<^verbatim>\<open>x || "null"\<close> for an optional string.\<close>

definition or_null :: "string option \<Rightarrow> string" where
  "or_null x = (case x of None \<Rightarrow> ''null'' | Some s \<Rightarrow> if s \<noteq> [] then s else ''null'')"

text \<open>The dispatch on the packet type \<^verbatim>\<open>y\<close> of an authenticated packet. For a response the
  nonce comes from the packet and is read as a property key of the table of callbacks.
  The callback is called before \<^verbatim>\<open>delete bugout.callbacks[nonce]\<close>: when the call throws,
  the exception leaves for the \<^verbatim>\<open>catch\<close> of \<^verbatim>\<open>onMessage\<close> and the entry stays. Under an
  inherited name both tests of \<^verbatim>\<open>bugout.callbacks[nonce]\<close> pass; the event is emitted, what
  is inherited is called, and the \<^verbatim>\<open>delete\<close> finds no own property.\<close>

definition dispatch ::
  "prims \<Rightarrow> ('fn, callback) yumi \<Rightarrow> int \<Rightarrow> bytes \<Rightarrow> bytes \<Rightarrow> packet
    \<Rightarrow> ('fn, callback) yumi \<times> ('fn, callback) event list" where
  "dispatch P bugout t nonceBytes boxNonce pkt =
     (if p_y pkt = ''m'' then
        (case p_v pkt of
           None \<Rightarrow> (bugout, [])
         | Some messagestring \<Rightarrow>
             (case JSON_parse P messagestring of
                None \<Rightarrow> (bugout, [])
              | Some messagejson \<Rightarrow>
                  if truthy messagejson
                  then (bugout, [Message (address P bugout (p_pk pkt)) messagejson pkt])
                  else (bugout, [])))
      else if p_y pkt = ''r'' then
        (let call = p_c pkt;
             argsstring = or_null (p_a pkt);
             args = (case JSON_parse P argsstring of None \<Rightarrow> JNull | Some j \<Rightarrow> j);
             nonce = p_rn pkt
         in case rpcCall P bugout t nonceBytes boxNonce (p_pk pkt) call args nonce of
              (b', evs) \<Rightarrow> (b', Rpc (address P bugout (p_pk pkt)) call args nonce # evs))
      else if p_y pkt = ''rr'' then
        (let nonce = p_rn pkt in
         case lookup (callbacks bugout) (property_key P nonce) of
           Missing \<Rightarrow> (bugout, [])
         | found \<Rightarrow>
             (let responsestring = or_null (p_rr pkt) in
              case JSON_parse P responsestring of
                None \<Rightarrow> (bugout, [])
              | Some responsestringstruct \<Rightarrow>
                  if truthy responsestringstruct then
                    (case found of
                       Own cb \<Rightarrow>
                         (if throws cb responsestringstruct
                          then bugout\<lparr>callbacks := (callbacks bugout)
                                          (property_key P nonce \<mapsto> after cb responsestringstruct)\<rparr>
                          else bugout\<lparr>callbacks := (callbacks bugout)(property_key P nonce := None)\<rparr>,
                          [RpcResponse (address P bugout (p_pk pkt)) nonce responsestringstruct,
                           CallCallback (property_key P nonce) cb responsestringstruct])
                     | _ \<Rightarrow>
                         (bugout,
                          [RpcResponse (address P bugout (p_pk pkt)) nonce responsestringstruct,
                           CallInherited (property_key P nonce)]))
                  else (bugout, [])))
      else if p_y pkt = ''p'' then (bugout, [Ping (address P bugout (p_pk pkt))])
      else if p_y pkt = ''x'' then
        (bugout\<lparr>peers := AList.delete (address P bugout (p_pk pkt)) (peers bugout)\<rparr>,
         [Left (address P bugout (p_pk pkt))])
      else (bugout, []))"

text \<open>The first half of \<^verbatim>\<open>onMessage\<close> after the parse: an object with \<^verbatim>\<open>e\<close>, \<^verbatim>\<open>n\<close> and
  \<^verbatim>\<open>ek\<close> is decrypted and parsed again. \<open>None\<close> is every way in which nothing is left
  to process: an exception, a failed decryption, \<^verbatim>\<open>null\<close>.\<close>

definition decryptUnpacked :: "prims \<Rightarrow> ('fn, 'cb) yumi \<Rightarrow> unpacked \<Rightarrow> unpacked option" where
  "decryptUnpacked P bugout unp =
     (case u_e unp of
        None \<Rightarrow> Some unp
      | Some e \<Rightarrow>
          (case u_n unp of
             None \<Rightarrow> Some unp
           | Some n \<Rightarrow>
               (case u_ek unp of
                  None \<Rightarrow> Some unp
                | Some ek \<Rightarrow>
                    (case bs58_decode P ek of
                       None \<Rightarrow> None
                     | Some ekBytes \<Rightarrow>
                         (case nacl_box_open P (fromHex P e) (fromHex P n) ekBytes (boxSecretKey bugout) of
                            None \<Rightarrow> None
                          | Some decrypted \<Rightarrow> parse_unpacked P (toString P decrypted))))))"

text \<open>The second half: the signed packet is parsed and checked, then the peer is recorded
  and the packet dispatched. The signature field may be missing, and decoding the
  public key may throw; both end the processing.\<close>

definition handleSigned ::
  "prims \<Rightarrow> ('fn, callback) yumi \<Rightarrow> int \<Rightarrow> bytes \<Rightarrow> bytes \<Rightarrow> string option \<Rightarrow> string
    \<Rightarrow> ('fn, callback) yumi \<times> ('fn, callback) event list" where
  "handleSigned P bugout t nonceBytes boxNonce sig p =
     (case parse_packet P p of
        None \<Rightarrow> (bugout, [])
      | Some pkt \<Rightarrow>
          (case sig of
             None \<Rightarrow> (bugout, [])
           | Some s \<Rightarrow>
               (case bs58_decode P (p_pk pkt) of
                  None \<Rightarrow> (bugout, [])
                | Some pkBytes \<Rightarrow>
                    (let checksig = nacl_verify P (toBuffer P p) (fromHex P s) pkBytes;
                         checkid = (p_i pkt = identifier' bugout);
                         checktime = (p_t pkt + timeout bugout > t)
                     in if checksig \<and> checkid \<and> checktime then
                          (case sawPeer P bugout (p_pk pkt) (p_ek pkt) t of
                             (b1, evs1) \<Rightarrow>
                               (case dispatch P b1 t nonceBytes boxNonce pkt of
                                  (b2, evs2) \<Rightarrow> (b2, evs1 @ evs2)))
                        else (bugout, [])))))"

text \<open>\<^verbatim>\<open>onMessage\<close>. \<open>t\<close> is the reading of \<^verbatim>\<open>now()\<close>; all readings within one run are taken
  to be this one. \<open>nonceBytes\<close> and \<open>boxNonce\<close> are the random bytes for a reply that the
  run may send.\<close>

definition onMessage ::
  "prims \<Rightarrow> ('fn, callback) yumi \<Rightarrow> int \<Rightarrow> bytes \<Rightarrow> bytes \<Rightarrow> bytes \<Rightarrow> ('fn, callback) yumi \<times> ('fn, callback) event list" where
  "onMessage P bugout t nonceBytes boxNonce message =
     (let hash = toHex (drop 16 (nacl_hash P message)) in
      if (case seen bugout hash of None \<Rightarrow> False | Some ts \<Rightarrow> ts \<noteq> 0) then (bugout, [])
      else
        (let b1 = bugout\<lparr>seen := (seen bugout)(hash \<mapsto> t)\<rparr> in
         case parse_unpacked P (toString P message) of
           None \<Rightarrow> (b1, [])
         | Some unp \<Rightarrow>
             (case decryptUnpacked P b1 unp of
                None \<Rightarrow> (b1, [])
              | Some unp' \<Rightarrow>
                  (case u_p unp' of
                     None \<Rightarrow> (b1, [])
                   | Some p \<Rightarrow> handleSigned P b1 t nonceBytes boxNonce (u_s unp') p))))"

text \<open>The subscription to \<^verbatim>\<open>messages/\<close>: the bytes that it hands to \<^verbatim>\<open>onMessage\<close>, if
  any.\<close>

definition messageListener :: "prims \<Rightarrow> messageData option \<Rightarrow> bytes option" where
  "messageListener P data =
     (case data of
        None \<Rightarrow> None
      | Some d \<Rightarrow> if msg_m d \<noteq> [] \<and> msg_t d \<noteq> 0 then fromBase64 P (msg_m d) else None)"

text \<open>The subscription to \<^verbatim>\<open>presence/\<close>.\<close>

record presenceData =
  pr_pk :: string
  pr_ek :: string
  pr_t :: int

definition onPresence ::
  "prims \<Rightarrow> ('fn, 'cb) yumi \<Rightarrow> int \<Rightarrow> presenceData option \<Rightarrow> ('fn, 'cb) yumi \<times> ('fn, 'cb) event list" where
  "onPresence P bugout t data =
     (case data of
        None \<Rightarrow> (bugout, [])
      | Some d \<Rightarrow>
          if pr_pk d \<noteq> [] \<and> pr_ek d \<noteq> [] \<and> pr_t d \<noteq> 0 then
            (let addr = address P bugout (pr_pk d) in
             if addr \<noteq> address P bugout [] then
               (let wasNew = (map_of (peers bugout) addr = None);
                    b1 = bugout\<lparr>peers := AList.update addr
                                   \<lparr>pi_pk = pr_pk d, pi_ek = pr_ek d, pi_last = t\<rparr> (peers bugout)\<rparr>
                in if wasNew then
                     (case updateConnections b1 of (b2, evs) \<Rightarrow> (b2, Seen addr # evs))
                   else (b1, []))
             else (bugout, []))
          else (bugout, []))"

text \<open>\<^verbatim>\<open>send\<close>. The first argument is an address or, in the broadcast form, the value; the
  second is missing in the broadcast form. The result carries the exception, if one
  is thrown. The address comes from the caller: under a name of \<^verbatim>\<open>Object.prototype\<close> the
  test \<^verbatim>\<open>this.peers[address]\<close> passes and \<^verbatim>\<open>this.peers[address].pk\<close> is \<^verbatim>\<open>undefined\<close>, which
  \<^verbatim>\<open>encryptPacket\<close> takes for the own key.\<close>

definition send ::
  "prims \<Rightarrow> ('fn, 'cb) yumi \<Rightarrow> int \<Rightarrow> bytes \<Rightarrow> bytes \<Rightarrow> json \<Rightarrow> json option
    \<Rightarrow> ('fn, 'cb) yumi \<times> error option" where
  "send P bugout now nonceBytes boxNonce addr0 message0 =
     (let swap = (case message0 of None \<Rightarrow> True | Some m \<Rightarrow> \<not> truthy m);
          message = (if swap then addr0 else the message0);
          addr = (if swap then JNull else addr0);
          pkt = makePacket P bugout now nonceBytes
                  \<lparr>pa_y = ''m'', pa_v = Some (JSON_stringify P message), pa_c = None, pa_a = None,
                   pa_rn = None, pa_rr = None\<rparr>
      in if truthy addr then
           (case lookup (map_of (peers bugout)) (property_key P (Some addr)) of
              Missing \<Rightarrow> (bugout, Some (NotSeenNoPublicKey (property_key P (Some addr))))
            | found \<Rightarrow>
                (case encryptPacket P bugout boxNonce
                        (case found of Own peer \<Rightarrow> pi_pk peer | _ \<Rightarrow> []) pkt of
                   Inl e \<Rightarrow> (bugout, Some e)
                 | Inr encryptedPacket \<Rightarrow> (sendRaw P bugout now encryptedPacket, None)))
         else (sendRaw P bugout now pkt, None))"

text \<open>\<^verbatim>\<open>rpc\<close>, with its overloaded form \<^verbatim>\<open>rpc(call, args, callback)\<close> towards the server
  address. \<open>callnonce\<close> are the eight random bytes of the call. The callback is stored
  before the packet is made, so it stays stored when \<^verbatim>\<open>encryptPacket\<close> throws; this is what
  happens under a name of \<^verbatim>\<open>Object.prototype\<close>, where \<^verbatim>\<open>pk\<close> is \<^verbatim>\<open>undefined\<close>. A missing
  callback is stored as \<^verbatim>\<open>undefined\<close>, which reads like no entry, the key being no
  inherited name (it consists of hexadecimal digits).\<close>

definition rpc ::
  "prims \<Rightarrow> ('fn, 'cb) yumi \<Rightarrow> int \<Rightarrow> bytes \<Rightarrow> bytes \<Rightarrow> bytes \<Rightarrow> string \<Rightarrow> json \<Rightarrow> 'cb jsarg option
    \<Rightarrow> 'cb option \<Rightarrow> ('fn, 'cb) yumi \<times> error option" where
  "rpc P bugout now nonceBytes boxNonce callnonce addr0 call0 args0 callback0 =
     (let shift = (case serveraddress bugout of
                     None \<Rightarrow> False
                   | Some sa \<Rightarrow> sa \<noteq> [] \<and> (case args0 of Some (ArgFn f) \<Rightarrow> True | _ \<Rightarrow> False));
          callback = (if shift then (case args0 of Some (ArgFn f) \<Rightarrow> Some f | _ \<Rightarrow> None) else callback0);
          args = (if shift then Some call0
                  else (case args0 of Some (ArgVal j) \<Rightarrow> Some j | _ \<Rightarrow> None));
          call = (if shift then JStr addr0 else call0);
          addr = (if shift then the (serveraddress bugout) else addr0)
      in case lookup (map_of (peers bugout)) addr of
           Missing \<Rightarrow> (bugout, Some (NotSeenNoPublicKey addr))
         | found \<Rightarrow>
             (let pk = (case found of Own peer \<Rightarrow> pi_pk peer | _ \<Rightarrow> []);
                  b1 = bugout\<lparr>callbacks := (callbacks bugout)(toHex callnonce := callback)\<rparr> in
              case makeEncryptSendPacket P b1 now nonceBytes boxNonce pk
                     \<lparr>pa_y = ''r'', pa_v = None, pa_c = Some call,
                      pa_a = map_option (JSON_stringify P) args,
                      pa_rn = Some (uint8array_json callnonce), pa_rr = None\<rparr> of
                Inl e \<Rightarrow> (b1, Some e)
              | Inr b2 \<Rightarrow> (b2, None)))"

text \<open>Every entry of the peer table is stored under the address of its signing key, as
  \<^verbatim>\<open>sawPeer\<close> and the presence subscription store it.\<close>

definition peers_keyed :: "prims \<Rightarrow> ('fn, 'cb) yumi \<Rightarrow> bool" where
  "peers_keyed P bugout = list_all (\<lambda>(addr, peer). address P bugout (pi_pk peer) = addr) (peers bugout)"

text \<open>The two exceptions that name an unknown peer.\<close>

fun unknownPeer :: "error option \<Rightarrow> bool" where
  "unknownPeer (Some (NotSeenNoPublicKey a)) = True"
| "unknownPeer (Some (NotSeenNoEncryptionKey a)) = True"
| "unknownPeer e = False"

section \<open>Yumi: notions for the properties\<close>

text \<open>The test \<^verbatim>\<open>bugout.seen[hash]\<close>: the table has a non-zero time for the hash.\<close>

definition seen_truthy :: "('fn, 'cb) yumi \<Rightarrow> string \<Rightarrow> bool" where
  "seen_truthy bugout h = (case seen bugout h of None \<Rightarrow> False | Some ts \<Rightarrow> ts \<noteq> 0)"

text \<open>Between two states the seen table only gained entries, stamped \<open>t\<close>.\<close>

definition seen_grows :: "int \<Rightarrow> ('fn, 'cb) yumi \<Rightarrow> ('fn, 'cb) yumi \<Rightarrow> bool" where
  "seen_grows t b b' = (\<forall>h. seen b' h = seen b h \<or> seen b' h = Some t)"

text \<open>The state after a list of receipts (clock reading, random bytes for a reply,
  message).\<close>

definition receiveAll ::
  "prims \<Rightarrow> ('fn, callback) yumi \<Rightarrow> (int \<times> bytes \<times> bytes \<times> bytes) list \<Rightarrow> ('fn, callback) yumi" where
  "receiveAll P bugout receipts =
     foldl (\<lambda>b (t, nonceBytes, boxNonce, message). fst (onMessage P b t nonceBytes boxNonce message))
       bugout receipts"

text \<open>The signed packet that a message carries: the message is parsed, opened when it
  is a box, and its payload parsed.\<close>

definition carried_packet :: "prims \<Rightarrow> ('fn, 'cb) yumi \<Rightarrow> bytes \<Rightarrow> packet option" where
  "carried_packet P bugout message =
     (case parse_unpacked P (toString P message) of
        None \<Rightarrow> None
      | Some unp \<Rightarrow>
          (case decryptUnpacked P bugout unp of
             None \<Rightarrow> None
           | Some unp' \<Rightarrow>
               (case u_p unp' of
                  None \<Rightarrow> None
                | Some p \<Rightarrow> parse_packet P p)))"

text \<open>The packet that \<^verbatim>\<open>onMessage\<close> accepts from a message: the carried packet, when
  its signature verifies, its identifier is the local one and it is fresh.\<close>

definition accepted_packet :: "prims \<Rightarrow> ('fn, 'cb) yumi \<Rightarrow> int \<Rightarrow> bytes \<Rightarrow> packet option" where
  "accepted_packet P bugout t message =
     (case parse_unpacked P (toString P message) of
        None \<Rightarrow> None
      | Some unp \<Rightarrow>
          (case decryptUnpacked P bugout unp of
             None \<Rightarrow> None
           | Some unp' \<Rightarrow>
               (case u_p unp' of
                  None \<Rightarrow> None
                | Some p \<Rightarrow>
                    (case parse_packet P p of
                       None \<Rightarrow> None
                     | Some pkt \<Rightarrow>
                         (case u_s unp' of
                            None \<Rightarrow> None
                          | Some s \<Rightarrow>
                              (case bs58_decode P (p_pk pkt) of
                                 None \<Rightarrow> None
                               | Some pkBytes \<Rightarrow>
                                   if nacl_verify P (toBuffer P p) (fromHex P s) pkBytes \<and>
                                      p_i pkt = identifier' bugout \<and> p_t pkt + timeout bugout > t
                                   then Some pkt else None))))))"

text \<open>The events emitted over a list of receipts; among events the invocations of the
  callback registered under a key, and those from which the callback returns.\<close>

fun receiveEvents ::
  "prims \<Rightarrow> ('fn, callback) yumi \<Rightarrow> (int \<times> bytes \<times> bytes \<times> bytes) list \<Rightarrow> ('fn, callback) event list" where
  "receiveEvents P bugout [] = []"
| "receiveEvents P bugout ((t, nonceBytes, boxNonce, message) # receipts) =
     snd (onMessage P bugout t nonceBytes boxNonce message) @
     receiveEvents P (fst (onMessage P bugout t nonceBytes boxNonce message)) receipts"

fun is_invocation :: "string \<Rightarrow> ('fn, 'cb) event \<Rightarrow> bool" where
  "is_invocation k (CallCallback k' cb result) = (k' = k)"
| "is_invocation k e = False"

definition invocations :: "string \<Rightarrow> ('fn, 'cb) event list \<Rightarrow> ('fn, 'cb) event list" where
  "invocations k evs = filter (is_invocation k) evs"



text \<open>The events of a response that is not dropped.\<close>

fun is_response :: "('fn, 'cb) event \<Rightarrow> bool" where
  "is_response (RpcResponse a nonce result) = True"
| "is_response (CallCallback k cb result) = True"
| "is_response (CallInherited k) = True"
| "is_response e = False"


section \<open>Yari: the encrypted overlay\<close>

record yariPeerInfo =
  yp_pub :: string
  yp_epub :: string

record ('fn, 'cb) yari =
  yumi_of :: "('fn, 'cb) yumi"
  yari_peers :: "(string \<times> yariPeerInfo) list"
  sea :: "(string \<times> string \<times> string \<times> string) option"

datatype yari_error = PeerNotFound string | EncryptionError

text \<open>What \<^verbatim>\<open>Yari.send\<close> does that can be observed: calls of \<^verbatim>\<open>yumi.send\<close> (made by
  the listener of \<^verbatim>\<open>encoded\<close>) and lines of the console.\<close>

datatype trace =
    YumiSend json json
  | WarnInvalidEncryptedFormat
  | LogEncrypted string
  | LogEncryptionError string

text \<open>The listener of the internal event \<^verbatim>\<open>encoded\<close>; the argument is the emitted
  array. An exception of \<^verbatim>\<open>yumi.send\<close> passes through \<^verbatim>\<open>emit\<close> to the emitter.\<close>

definition onEncoded ::
  "prims \<Rightarrow> ('fn, 'cb) yari \<Rightarrow> int \<Rightarrow> bytes \<Rightarrow> bytes \<Rightarrow> json list
    \<Rightarrow> ('fn, 'cb) yari \<times> trace list \<times> error option" where
  "onEncoded P y now nonceBytes boxNonce encrypted =
     (if length encrypted = 2 then
        (case send P (yumi_of y) now nonceBytes boxNonce (encrypted ! 0) (Some (encrypted ! 1)) of
           (b', err) \<Rightarrow> (y\<lparr>yumi_of := b'\<rparr>, [YumiSend (encrypted ! 0) (encrypted ! 1)], err))
      else (y, [WarnInvalidEncryptedFormat], None))"

text \<open>The body of the \<^verbatim>\<open>map\<close> callback of a broadcast, for one peer: \<^verbatim>\<open>try { secret;
  encrypt; emit('encoded', [peer, enc, msgId]) } catch { log }\<close>. \<open>rnd\<close> gives the random
  bytes of the packet sent to a peer.\<close>

definition broadcastTo ::
  "prims \<Rightarrow> int \<Rightarrow> (string \<Rightarrow> bytes \<times> bytes) \<Rightarrow> json \<Rightarrow> string
    \<Rightarrow> ('fn, 'cb) yari \<times> trace list \<Rightarrow> string \<Rightarrow> ('fn, 'cb) yari \<times> trace list" where
  "broadcastTo P now rnd msg msgId acc peer =
     (case acc of
        (y, out) \<Rightarrow>
          (case map_of (yari_peers y) peer of
             None \<Rightarrow> (y, out @ [LogEncryptionError peer])
           | Some info \<Rightarrow>
               (case sea_secret P (yp_epub info) (sea y) of
                  None \<Rightarrow> (y, out @ [LogEncryptionError peer])
                | Some secret \<Rightarrow>
                    (case sea_encrypt P msg secret of
                       None \<Rightarrow> (y, out @ [LogEncryptionError peer])
                     | Some enc \<Rightarrow>
                         (case onEncoded P y now (fst (rnd peer)) (snd (rnd peer))
                                 [JStr peer, enc, JStr msgId] of
                            (y', out', None) \<Rightarrow> (y', out @ out' @ [LogEncrypted peer])
                          | (y', out', Some e) \<Rightarrow> (y', out @ out' @ [LogEncryptionError peer]))))))"

text \<open>\<^verbatim>\<open>Yari.send\<close> after the wait for a first peer.\<close>

definition yari_send_body ::
  "prims \<Rightarrow> ('fn, 'cb) yari \<Rightarrow> int \<Rightarrow> (string \<Rightarrow> bytes \<times> bytes) \<Rightarrow> string \<Rightarrow> json \<Rightarrow> json option
    \<Rightarrow> ('fn, 'cb) yari \<times> trace list \<times> yari_error option" where
  "yari_send_body P y now rnd msgId addr0 message0 =
     (if (case message0 of None \<Rightarrow> True | Some m \<Rightarrow> \<not> truthy m) then
        (case foldl (broadcastTo P now rnd addr0 msgId) (y, []) (map fst (yari_peers y)) of
           (y', out) \<Rightarrow> (y', out, None))
      else
        (case map_of (yari_peers y) (property_key P (Some addr0)) of
           None \<Rightarrow> (y, [], Some (PeerNotFound (property_key P (Some addr0))))
         | Some info \<Rightarrow>
             (case sea_secret P (yp_epub info) (sea y) of
                None \<Rightarrow> (y, [LogEncryptionError (property_key P (Some addr0))], Some EncryptionError)
              | Some secret \<Rightarrow>
                  (case sea_encrypt P (the message0) secret of
                     None \<Rightarrow> (y, [LogEncryptionError (property_key P (Some addr0))], Some EncryptionError)
                   | Some enc \<Rightarrow>
                       (case onEncoded P y now (fst (rnd (property_key P (Some addr0))))
                               (snd (rnd (property_key P (Some addr0))))
                               [addr0, enc, JStr msgId] of
                          (y', out', None) \<Rightarrow> (y', out', None)
                        | (y', out', Some e) \<Rightarrow>
                            (y', out' @ [LogEncryptionError (property_key P (Some addr0))],
                             Some EncryptionError))))))"

text \<open>\<^verbatim>\<open>Yari.send\<close>: with an empty peer table the call waits for the event \<^verbatim>\<open>newPeer\<close>
  (\<open>None\<close>); otherwise it runs the body.\<close>

definition yari_send ::
  "prims \<Rightarrow> ('fn, 'cb) yari \<Rightarrow> int \<Rightarrow> (string \<Rightarrow> bytes \<times> bytes) \<Rightarrow> string \<Rightarrow> json \<Rightarrow> json option
    \<Rightarrow> (('fn, 'cb) yari \<times> trace list \<times> yari_error option) option" where
  "yari_send P y now rnd msgId addr0 message0 =
     (if length (yari_peers y) = 0 then None
      else Some (yari_send_body P y now rnd msgId addr0 message0))"

text \<open>The handler of the RPC \<^verbatim>\<open>peer\<close>: it stores the keys and emits \<^verbatim>\<open>newPeer\<close>, which
  resumes a waiting \<^verbatim>\<open>send\<close>.\<close>

definition peerHandler ::
  "('fn, 'cb) yari \<Rightarrow> string \<Rightarrow> yariPeerInfo option \<Rightarrow> ('fn, 'cb) yari \<times> bool \<times> reply" where
  "peerHandler y addr keys =
     (case keys of
        None \<Rightarrow> (y, False, \<lparr>success = False, error = Some ''Invalid keys'', r_fileId = None, r_chunks = None\<rparr>)
      | Some k \<Rightarrow>
          if yp_pub k \<noteq> [] \<and> yp_epub k \<noteq> [] then
            (y\<lparr>yari_peers := AList.update addr \<lparr>yp_pub = yp_pub k, yp_epub = yp_epub k\<rparr> (yari_peers y)\<rparr>,
             True, \<lparr>success = True, error = None, r_fileId = None, r_chunks = None\<rparr>)
          else (y, False, \<lparr>success = False, error = Some ''Invalid keys'', r_fileId = None, r_chunks = None\<rparr>))"

text \<open>The calls of \<^verbatim>\<open>yumi.send\<close> among the observations.\<close>

fun is_YumiSend :: "trace \<Rightarrow> bool" where
  "is_YumiSend (YumiSend a v) = True"
| "is_YumiSend e = False"

text \<open>A delivered file result is complete with respect to the receiver state.\<close>

definition delivered_complete :: "prims \<Rightarrow> metadata \<Rightarrow> string \<Rightarrow> receiver \<Rightarrow> fileResult \<Rightarrow> bool" where
  "delivered_complete P metadata fileId r res =
     ((\<forall>i. 0 \<le> i \<and> i < md_totalChunks metadata \<longrightarrow> has_chunk (receivedChunks r) i) \<and>
      fromBase64 P (concat_stored (receivedChunks r) (md_totalChunks metadata)) = Some (fr_data res) \<and>
      fr_size res = md_size metadata \<and> fr_filename res = md_name metadata \<and> fr_fileId res = fileId)"

text \<open>No chunk of a cache entry is the empty string (\<^verbatim>\<open>sendFile\<close> never stores one).\<close>

definition nonempty_chunks :: "cacheEntry \<Rightarrow> bool" where
  "nonempty_chunks cached = (\<forall>i d. ce_chunks cached i = Some d \<longrightarrow> d \<noteq> [])"

section \<open>Example instances\<close>

text \<open>A small concrete instance of the primitives. Base64 is right on the two byte
  strings that the examples encode; the hash is sixteen zero bytes followed by the first
  48 bytes of the message (padded with zeros), so that the short messages of the
  examples have keys of their own; every signature is the byte \<open>5a\<close>, the box is the
  identity, and short names stand for the JSON texts of packets. Then a transfer engine
  with chunks of three characters.\<close>

definition example_prims :: prims where
  "example_prims =
     \<lparr>nacl_hash = (\<lambda>m. replicate 16 0 @ take 48 (m @ replicate 48 0)),
      nacl_sign = (\<lambda>m sk. [0x5a]),
      nacl_verify = (\<lambda>m s pk. s = [0x5a]),
      nacl_box = (\<lambda>m n pk sk. Some m),
      nacl_box_open = (\<lambda>c n pk sk. Some c),
      bs58_decode = (\<lambda>s. Some (map (\<lambda>c. of_nat (of_char c)) s)),
      bs58checkEncode = toHex,
      ripemd160Hash = take 20,
      toBuffer = map (\<lambda>c. of_nat (of_char c)),
      toString = map (\<lambda>b. char_of (unat b)),
      toBase64 = (\<lambda>bs. if bs = [104, 101, 108, 108, 111, 33] then ''aGVsbG8h''
                       else if bs = [104, 105] then ''aGk='' else []),
      fromBase64 = (\<lambda>s. if s = ''aGVsbG8h'' then Some [104, 101, 108, 108, 111, 33]
                        else if s = ''aGk='' then Some [104, 105] else None),
      fromHex = (\<lambda>s. if s = ''5a'' then [0x5a] else []),
      parse_unpacked = (\<lambda>s.
         if s = ''signed-stale''
         then Some \<lparr>u_e = None, u_n = None, u_ek = None, u_p = Some ''stale'', u_s = Some ''5a''\<rparr>
         else if s = ''signed-response''
         then Some \<lparr>u_e = None, u_n = None, u_ek = None, u_p = Some ''response'', u_s = Some ''5a''\<rparr>
         else if s = ''signed-result''
         then Some \<lparr>u_e = None, u_n = None, u_ek = None, u_p = Some ''result'', u_s = Some ''5a''\<rparr>
         else if s = ''signed-again''
         then Some \<lparr>u_e = None, u_n = None, u_ek = None, u_p = Some ''again'', u_s = Some ''5a''\<rparr>
         else if s = ''signed-inherited''
         then Some \<lparr>u_e = None, u_n = None, u_ek = None, u_p = Some ''inherited'', u_s = Some ''5a''\<rparr>
         else None),
      parse_packet = (\<lambda>s.
         if s = ''stale''
         then Some \<lparr>p_t = 1000, p_i = ''room'', p_pk = ''pkB'', p_ek = ''ekB'', p_n = ''0102030405060708'',
                     p_y = ''m'', p_v = Some ''[1]'', p_c = None, p_a = None, p_rn = None, p_rr = None\<rparr>
         else if s = ''response''
         then Some \<lparr>p_t = 1000, p_i = ''room'', p_pk = ''pkB'', p_ek = ''ekB'', p_n = ''0102030405060708'',
                     p_y = ''rr'', p_v = None, p_c = None, p_a = None,
                     p_rn = Some (JStr ''a1b2c3d4e5f60718''), p_rr = Some ''0''\<rparr>
         else if s = ''result''
         then Some \<lparr>p_t = 1000, p_i = ''room'', p_pk = ''pkB'', p_ek = ''ekB'', p_n = ''0102030405060708'',
                     p_y = ''rr'', p_v = None, p_c = None, p_a = None,
                     p_rn = Some (JStr ''a1b2c3d4e5f60718''), p_rr = Some ''[1]''\<rparr>
         else if s = ''again''
         then Some \<lparr>p_t = 1004, p_i = ''room'', p_pk = ''pkB'', p_ek = ''ekB'', p_n = ''1112131415161718'',
                     p_y = ''rr'', p_v = None, p_c = None, p_a = None,
                     p_rn = Some (JStr ''a1b2c3d4e5f60718''), p_rr = Some ''[1]''\<rparr>
         else if s = ''inherited''
         then Some \<lparr>p_t = 1000, p_i = ''room'', p_pk = ''pkB'', p_ek = ''ekB'', p_n = ''0102030405060708'',
                     p_y = ''rr'', p_v = None, p_c = None, p_a = None,
                     p_rn = Some (JStr ''constructor''), p_rr = Some ''[1]''\<rparr>
         else None),
      JSON_parse = (\<lambda>s. if s = ''0'' then Some (JNum 0) else if s = ''null'' then Some JNull
                        else if s = ''[1]'' then Some (JArr [JNum 1]) else None),
      JSON_stringify = (\<lambda>j. if j = JNum 0 then ''0'' else if j = JArr [JNum 1] then ''[1]'' else ''null''),
      stringify_packet = (\<lambda>p. ''packet''),
      stringify_signed = (\<lambda>p. ''signed''),
      stringify_encrypted = (\<lambda>p. ''encrypted''),
      js_ToString = (\<lambda>j. ''?''),
      sea_secret = (\<lambda>epub pair. Some (''secret-'' @ epub)),
      sea_encrypt = (\<lambda>v s. Some (JStr ''ciphertext''))\<rparr>"

definition example_kunai :: kunai where
  "example_kunai = \<lparr>chunkSize = 3, chunkCache = [], gunFiles = [], gunChunks = [], k_address = ''me''\<rparr>"

text \<open>The sender cache after that upload.\<close>

definition example_cache :: kunai where
  "example_cache =
     \<lparr>chunkSize = 3,
      chunkCache = [(''7-ninja-tokyo'',
          \<lparr>ce_chunks = [0 \<mapsto> ''aGV'', 1 \<mapsto> ''sbG'', 2 \<mapsto> ''8h''],
           ce_metadata = \<lparr>md_name = ''h.txt'', md_type = ''application/octet-stream'', md_size = 6,
                          md_totalChunks = 3, md_timestamp = 1000, md_sender = ''me''\<rparr>,
           ce_timestamp = 1010\<rparr>)],
      gunFiles = [], gunChunks = [], k_address = ''me''\<rparr>"

text \<open>A second upload by that engine, of the two bytes \<^verbatim>\<open>hi\<close>, 1010 ms after the first, for
  which \<^verbatim>\<open>generateTransferCode\<close> draws the same code.\<close>

definition example_reupload :: "kunai_error + string \<times> kunai \<times> action list" where
  "example_reupload =
     sendFile example_prims example_cache ''7-ninja-tokyo'' 2000 (\<lambda>i. 2010) 2020
       \<lparr>f_name = ''i.txt'', f_size = 2, f_type = None\<rparr> (Some [104, 105])"

text \<open>A receiver of that file that holds the first two of its three chunks.\<close>

definition example_metadata :: metadata where
  "example_metadata = \<lparr>md_name = ''h.txt'', md_type = ''application/octet-stream'', md_size = 6,
                          md_totalChunks = 3, md_timestamp = 1000, md_sender = ''me''\<rparr>"

definition example_receiver :: receiver where
  "example_receiver =
     \<lparr>receivedChunks = [0 \<mapsto> ''aGV'', 1 \<mapsto> ''sbG''], collectedChunks = 2, isProcessing = False,
      timeoutId = True, processedChunkIds = {''c1'', ''c2''}, listening = True\<rparr>"

text \<open>A callback that always returns, and one that throws when it is first called and
  returns from then on.\<close>

primcorec returning :: callback where
  "returning = Callback (\<lambda>v. False) (\<lambda>v. returning)"

primcorec throwing_once :: callback where
  "throwing_once = Callback (\<lambda>v. True) (\<lambda>v. returning)"

text \<open>A channel instance on the channel \<^verbatim>\<open>room\<close> with one pending RPC callback, and a
  packet sent 300001 ms before it is received.\<close>

definition example_yumi :: "(string, callback) yumi" where
  "example_yumi =
     \<lparr>identifier' = ''room'', timeout = 300000, own_pk = ''pkA'', own_ek = ''ekA'', publicKey = [1],
      secretKey = [2], boxSecretKey = [3], peers = [], seen = Map.empty, lastpeercount = 0,
      api = Map.empty, callbacks = [''a1b2c3d4e5f60718'' \<mapsto> returning], serveraddress = None,
      messages = []\<rparr>"

definition example_stale :: packet where
  "example_stale =
     \<lparr>p_t = 1000, p_i = ''room'', p_pk = ''pkB'', p_ek = ''ekB'', p_n = ''0102030405060708'',
      p_y = ''m'', p_v = Some ''[1]'', p_c = None, p_a = None, p_rn = None, p_rr = None\<rparr>"

text \<open>The same instance after it has seen the peer with the signing key \<^verbatim>\<open>pkB\<close>.\<close>

definition example_known :: "(string, callback) yumi" where
  "example_known =
     example_yumi\<lparr>peers := [(address example_prims example_yumi ''pkB'',
                               \<lparr>pi_pk = ''pkB'', pi_ek = ''ekB'', pi_last = 900\<rparr>)]\<rparr>"


definition example_result :: packet where
  "example_result =
     \<lparr>p_t = 1000, p_i = ''room'', p_pk = ''pkB'', p_ek = ''ekB'', p_n = ''0102030405060708'',
      p_y = ''rr'', p_v = None, p_c = None, p_a = None,
      p_rn = Some (JStr ''a1b2c3d4e5f60718''), p_rr = Some ''[1]''\<rparr>"

definition example_again :: packet where
  "example_again =
     \<lparr>p_t = 1004, p_i = ''room'', p_pk = ''pkB'', p_ek = ''ekB'', p_n = ''1112131415161718'',
      p_y = ''rr'', p_v = None, p_c = None, p_a = None,
      p_rn = Some (JStr ''a1b2c3d4e5f60718''), p_rr = Some ''[1]''\<rparr>"

definition example_inherited :: packet where
  "example_inherited =
     \<lparr>p_t = 1000, p_i = ''room'', p_pk = ''pkB'', p_ek = ''ekB'', p_n = ''0102030405060708'',
      p_y = ''rr'', p_v = None, p_c = None, p_a = None,
      p_rn = Some (JStr ''constructor''), p_rr = Some ''[1]''\<rparr>"

text \<open>The same instance with the callback that throws once.\<close>

definition example_throwing :: "(string, callback) yumi" where
  "example_throwing = example_yumi\<lparr>callbacks := [''a1b2c3d4e5f60718'' \<mapsto> throwing_once]\<rparr>"

text \<open>An overlay over that instance that has exchanged keys with the same peer.\<close>

definition example_yari :: "(string, callback) yari" where
  "example_yari =
     \<lparr>yumi_of = example_known,
      yari_peers = [(address example_prims example_yumi ''pkB'', \<lparr>yp_pub = ''pubB'', yp_epub = ''epubB''\<rparr>)],
      sea = Some (''pubA'', ''privA'', ''epubA'', ''eprivA'')\<rparr>"

chapter \<open>Properties\<close>

section \<open>Kunai: chunking on the send path\<close>

declare processBatch.simps [simp del] uploadBatches.simps [simp del]

lemma js_slice_nat: "js_slice b (int p) (int p + int c) = take c (drop p b)"
proof (cases "p \<le> length b")
  case True
  have "nat (min (int p + int c) (int (length b)) - int p) = min c (length b - p)"
    using True by (auto simp: min_def)
  moreover have "take (min c (length b - p)) (drop p b) = take c (drop p b)"
    by (simp add: min_def)
  ultimately show ?thesis using True
    by (simp add: js_slice_def Let_def min_absorb1)
next
  case False
  then show ?thesis by (simp add: js_slice_def Let_def min_def)
qed

lemma js_slice_chunk:
  assumes "0 < cs" "0 \<le> j"
  shows "js_slice b (j * cs) ((j + 1) * cs) = take (nat cs) (drop (nat j * nat cs) b)"
proof -
  have "j * cs = int (nat j * nat cs)" using assms by simp
  moreover have "(j + 1) * cs = int (nat j * nat cs) + int (nat cs)"
    using assms by (simp add: distrib_right)
  ultimately show ?thesis using js_slice_nat[of b "nat j * nat cs" "nat cs"] by simp
qed

lemma concat_chunks_take:
  assumes "0 < cs"
  shows "concat (map (\<lambda>j. js_slice b (j * cs) ((j + 1) * cs)) (map int [0..<k])) = take (k * nat cs) b"
proof (induction k)
  case 0
  then show ?case by simp
next
  case (Suc k)
  have "js_slice b (int k * cs) ((int k + 1) * cs) = take (nat cs) (drop (k * nat cs) b)"
    using js_slice_chunk[OF assms, of "int k" b] by simp
  moreover have "take (k * nat cs) b @ take (nat cs) (drop (k * nat cs) b) = take (k * nat cs + nat cs) b"
    by (simp add: take_add)
  ultimately show ?case using Suc by (simp add: add.commute)
qed

lemma upto_as_upt: "[0..int k - 1] = map int [0..<k]"
proof (induction k)
  case 0
  then show ?case by simp
next
  case (Suc k)
  have "[0..int (Suc k) - 1] = [0..int k - 1] @ [int k]"
    using upto_rec2[of 0 "int k"] by simp
  then show ?case using Suc by simp
qed

lemma totalChunks_of_div: "totalChunks_of b cs = - (- int (length b) div cs)"
  unfolding totalChunks_of_def by (rule ceiling_divide_eq_div)

lemma totalChunks_covers:
  assumes "0 < cs"
  shows "0 \<le> totalChunks_of b cs" and "length b \<le> nat (totalChunks_of b cs) * nat cs"
proof -
  let ?n = "totalChunks_of b cs"
  have n: "?n = - (- int (length b) div cs)" by (rule totalChunks_of_div)
  have "- int (length b) div cs \<le> 0"
    using assms by (metis div_0 zdiv_mono1 neg_le_0_iff_le of_nat_0_le_iff)
  then show ge: "0 \<le> ?n" using n by simp
  have "(- int (length b) div cs) * cs + (- int (length b)) mod cs = - int (length b)"
    by (rule div_mult_mod_eq)
  moreover have "0 \<le> (- int (length b)) mod cs" using assms by simp
  ultimately have "(- int (length b) div cs) * cs \<le> - int (length b)" by linarith
  then have "int (length b) \<le> ?n * cs" using n by simp
  then have "int (length b) \<le> int (nat ?n * nat cs)" using ge assms by simp
  then show "length b \<le> nat ?n * nat cs" by linarith
qed

lemma concat_all_chunks:
  assumes "0 < cs"
  shows "concat (map (\<lambda>j. js_slice b (j * cs) ((j + 1) * cs)) [0..totalChunks_of b cs - 1]) = b"
proof -
  let ?n = "totalChunks_of b cs"
  have "[0..?n - 1] = map int [0..<nat ?n]"
    using upto_as_upt[of "nat ?n"] totalChunks_covers(1)[OF assms, of b] by simp
  then show ?thesis
    using concat_chunks_take[OF assms, of b "nat ?n"] totalChunks_covers(2)[OF assms, of b] by simp
qed

lemma processBatch_chunksMap:
  "chunksMap (processBatch b cs f clock i e u) =
     (\<lambda>j. if i \<le> j \<and> j < e then Some (js_slice b (j * cs) ((j + 1) * cs)) else chunksMap u j)"
proof (induction b cs f clock i e u rule: processBatch.induct)
  case (1 b cs f clock i e u)
  show ?case
  proof (cases "i < e")
    case True
    then show ?thesis
      using 1[OF True refl refl refl refl]
      by (subst processBatch.simps) (auto simp: Let_def fun_eq_iff)
  next
    case False
    then show ?thesis by (subst processBatch.simps) (auto simp: fun_eq_iff)
  qed
qed

lemma processBatch_node:
  "fileChunksNode (processBatch b cs f clock i e u) =
     fileChunksNode u @ map (\<lambda>j. \<lparr>cd_index = j, cd_data = js_slice b (j * cs) ((j + 1) * cs),
                                   cd_timestamp = clock j, cd_fileId = f\<rparr>) [i..e - 1]"
proof (induction b cs f clock i e u rule: processBatch.induct)
  case (1 b cs f clock i e u)
  show ?case
  proof (cases "i < e")
    case True
    then have "[i..e - 1] = i # [i + 1..e - 1]" by (simp add: upto_rec1)
    then show ?thesis
      using 1[OF True refl refl refl refl] True
      by (subst processBatch.simps) (simp add: Let_def)
  next
    case False
    then show ?thesis by (subst processBatch.simps) simp
  qed
qed

lemma uploadBatches_chunksMap:
  "chunksMap (uploadBatches b cs f clock s n u) =
     (\<lambda>j. if s \<le> j \<and> j < n then Some (js_slice b (j * cs) ((j + 1) * cs)) else chunksMap u j)"
proof (induction b cs f clock s n u rule: uploadBatches.induct)
  case (1 b cs f clock s n u)
  show ?case
  proof (cases "s < n")
    case True
    then show ?thesis
      using 1[OF True refl refl]
      by (subst uploadBatches.simps)
         (auto simp: Let_def fun_eq_iff batchSize_def processBatch_chunksMap)
  next
    case False
    then show ?thesis by (subst uploadBatches.simps) (auto simp: fun_eq_iff)
  qed
qed

lemma uploadBatches_node:
  "fileChunksNode (uploadBatches b cs f clock s n u) =
     fileChunksNode u @ map (\<lambda>j. \<lparr>cd_index = j, cd_data = js_slice b (j * cs) ((j + 1) * cs),
                                   cd_timestamp = clock j, cd_fileId = f\<rparr>) [s..n - 1]"
proof (induction b cs f clock s n u rule: uploadBatches.induct)
  case (1 b cs f clock s n u)
  show ?case
  proof (cases "s < n")
    case True
    then have "[s..n - 1] = s # [s + 1..n - 1]" by (simp add: upto_rec1)
    moreover have "min (s + 1) n = s + 1" using True by simp
    ultimately show ?thesis
      using 1[OF True refl refl] True
      by (subst uploadBatches.simps)
         (simp add: Let_def batchSize_def processBatch_node)
  next
    case False
    then show ?thesis by (subst uploadBatches.simps) simp
  qed
qed

text \<open>
  Claim C4. For every byte array, \<^verbatim>\<open>sendFile\<close> publishes
  \<open>totalChunks = ceil(|base64| / chunkSize)\<close>; chunk \<open>i\<close>, for every \<open>i\<close> in \<open>[0, totalChunks)\<close>, is
  the substring \<open>base64[i * chunkSize, (i + 1) * chunkSize)\<close>, both in the graph store
  (written in ascending index order) and in the sender cache; and the chunks
  concatenated in ascending index order are the base64 string again. The chunk size is
  positive.
\<close>

theorem sendFile_chunking:
  assumes "0 < chunkSize k"
  shows "\<exists>k'. sendFile P k fileId tMeta clock tCache file (Some buffer)
                = Inr (fileId, k', [EmitTransferComplete fileId]) \<and>
          (let base64 = toBase64 P buffer;
               cs = chunkSize k;
               total = \<lceil>real_of_int (int (length base64)) / real_of_int cs\<rceil>;
               chunk = (\<lambda>i. js_slice base64 (i * cs) ((i + 1) * cs))
           in map_option md_totalChunks (map_of (gunFiles k') fileId) = Some total \<and>
              gunChunks k' = gunChunks k @
                 map (\<lambda>i. (fileId, \<lparr>cd_index = i, cd_data = chunk i, cd_timestamp = clock i,
                                      cd_fileId = fileId\<rparr>)) [0..total - 1] \<and>
              map_option ce_chunks (map_of (chunkCache k') fileId)
                = Some (\<lambda>i. if 0 \<le> i \<and> i < total then Some (chunk i) else None) \<and>
              concat (map chunk [0..total - 1]) = base64)"
proof -
  let ?b = "toBase64 P buffer"
  let ?n = "totalChunks_of ?b (chunkSize k)"
  have "concat (map (\<lambda>i. js_slice ?b (i * chunkSize k) ((i + 1) * chunkSize k)) [0..?n - 1]) = ?b"
    by (rule concat_all_chunks[OF assms])
  then show ?thesis
    by (simp add: sendFile_def Let_def uploadBatches_node uploadBatches_chunksMap
        totalChunks_of_def update_conv' comp_def cong: if_cong)
qed

text \<open>The 6 bytes of \<^verbatim>\<open>hello!\<close> with chunks of three characters: three chunks.\<close>

theorem sendFile_chunking_witness:
  "0 < chunkSize example_kunai \<and>
   (\<exists>k'. sendFile example_prims example_kunai ''7-ninja-tokyo'' 1000 (\<lambda>i. 1000 + 5 * i) 1010
            \<lparr>f_name = ''h.txt'', f_size = 6, f_type = None\<rparr> (Some [104, 101, 108, 108, 111, 33])
          = Inr (''7-ninja-tokyo'', k', [EmitTransferComplete ''7-ninja-tokyo'']) \<and>
        map_option md_totalChunks (map_of (gunFiles k') ''7-ninja-tokyo'') = Some 3 \<and>
        map (cd_data \<circ> snd) (gunChunks k') = [''aGV'', ''sbG'', ''8h''] \<and>
        map (cd_index \<circ> snd) (gunChunks k') = [0, 1, 2])"
proof -
  have pos: "0 < chunkSize example_kunai" by (simp add: example_kunai_def)
  have b: "toBase64 example_prims [104, 101, 108, 108, 111, 33] = ''aGVsbG8h''"
    by (simp add: example_prims_def)
  have u: "[0..(2::int)] = [0, 1, 2]" by (simp add: upto_rec1)
  from sendFile_chunking[OF pos, of example_prims "''7-ninja-tokyo''" 1000 "\<lambda>i. 1000 + 5 * i" 1010
      "\<lparr>f_name = ''h.txt'', f_size = 6, f_type = None\<rparr>" "[104, 101, 108, 108, 111, 33]"]
  obtain k' where
    "sendFile example_prims example_kunai ''7-ninja-tokyo'' 1000 (\<lambda>i. 1000 + 5 * i) 1010
            \<lparr>f_name = ''h.txt'', f_size = 6, f_type = None\<rparr> (Some [104, 101, 108, 108, 111, 33])
          = Inr (''7-ninja-tokyo'', k', [EmitTransferComplete ''7-ninja-tokyo''])"
    and "map_option md_totalChunks (map_of (gunFiles k') ''7-ninja-tokyo'') = Some 3"
    and "gunChunks k' = map (\<lambda>i. (''7-ninja-tokyo'', \<lparr>cd_index = i, cd_data = js_slice ''aGVsbG8h'' (i * 3) ((i + 1) * 3), cd_timestamp = 1000 + 5 * i,
                                      cd_fileId = ''7-ninja-tokyo''\<rparr>)) [0, 1, 2]"
    unfolding b Let_def by (auto simp: example_kunai_def u)
  then show ?thesis using pos by (auto simp: js_slice_def)
qed

section \<open>Kunai: the retransmission handlers and the sender cache\<close>

lemma collectChunks_acc:
  "collectChunks m xs acc = acc @ collectChunks m xs []"
proof (induction xs arbitrary: acc)
  case Nil
  then show ?case by simp
next
  case (Cons x xs)
  show ?case
    using Cons[of "acc @ [(x, the (m x))]"] Cons[of "[(x, the (m x))]"] Cons[of acc]
    by (auto split: option.splits)
qed

lemma collectChunks_Cons:
  "collectChunks m (x # xs) [] =
     (case m x of Some d \<Rightarrow> if d \<noteq> [] then (x, d) # collectChunks m xs [] else collectChunks m xs []
      | None \<Rightarrow> collectChunks m xs [])"
  using collectChunks_acc[of m xs "[(x, the (m x))]"] by (auto split: option.splits)

lemma collectChunks_indices:
  "map fst (collectChunks m xs []) = filter (\<lambda>i. \<exists>d. m i = Some d \<and> d \<noteq> []) xs"
  by (induction xs) (auto simp: collectChunks_Cons simp del: collectChunks.simps(2) split: option.splits)

lemma collectChunks_data:
  "(i, d) \<in> set (collectChunks m xs []) \<Longrightarrow> m i = Some d \<and> i \<in> set xs"
  by (induction xs) (auto simp: collectChunks_Cons simp del: collectChunks.simps(2) split: option.splits if_splits)

text \<open>
  Claim C6. The \<^verbatim>\<open>request-chunks\<close> handler: when the cache has no entry for the
  \<open>fileId\<close> the reply is \<^verbatim>\<open>{success: false, error: "File not in cache"}\<close> and nothing else
  (no other field, cache unchanged). Otherwise the reply is
  \<^verbatim>\<open>{success: true, fileId, chunks}\<close>, and \<open>chunks\<close> runs through the requested indices in
  request order, with one pair for each requested index present in the cached chunk
  map, carrying the cached data; absent requested indices are omitted and no
  unrequested index appears. Cache entries hold no empty chunk, as every entry that
  \<^verbatim>\<open>sendFile\<close> stores (lemma \<open>sendFile_nonempty_chunks\<close> below).
\<close>

theorem request_chunks_reply:
  "(map_of (chunkCache k) fileId = None \<longrightarrow>
      request_chunks k fileId missingChunks =
        (k, \<lparr>success = False, error = Some ''File not in cache'', r_fileId = None, r_chunks = None\<rparr>)) \<and>
   (\<forall>cached. map_of (chunkCache k) fileId = Some cached \<and> nonempty_chunks cached \<longrightarrow>
      (\<exists>chunks. request_chunks k fileId missingChunks =
           (k, \<lparr>success = True, error = None, r_fileId = Some fileId, r_chunks = Some chunks\<rparr>) \<and>
         map fst chunks = filter (\<lambda>i. i \<in> dom (ce_chunks cached)) missingChunks \<and>
         (\<forall>(i, d) \<in> set chunks. ce_chunks cached i = Some d) \<and>
         (\<forall>i. count_list (map fst chunks) i =
               (if i \<in> dom (ce_chunks cached) then count_list missingChunks i else 0))))"
proof (intro conjI allI impI)
  assume "map_of (chunkCache k) fileId = None"
  then show "request_chunks k fileId missingChunks =
        (k, \<lparr>success = False, error = Some ''File not in cache'', r_fileId = None, r_chunks = None\<rparr>)"
    by (simp add: request_chunks_def)
next
  fix cached
  assume a: "map_of (chunkCache k) fileId = Some cached \<and> nonempty_chunks cached"
  let ?chunks = "collectChunks (ce_chunks cached) missingChunks []"
  have p: "(\<lambda>i. \<exists>d. ce_chunks cached i = Some d \<and> d \<noteq> []) = (\<lambda>i. i \<in> dom (ce_chunks cached))"
    using a by (auto simp: nonempty_chunks_def fun_eq_iff)
  have ix: "map fst ?chunks = filter (\<lambda>i. i \<in> dom (ce_chunks cached)) missingChunks"
    using collectChunks_indices[of "ce_chunks cached" missingChunks] p by simp
  have "count_list (filter P xs) i = (if P i then count_list xs i else 0)" for P and xs :: "int list" and i
    by (induction xs) auto
  then have cnt: "\<forall>i. count_list (map fst ?chunks) i =
               (if i \<in> dom (ce_chunks cached) then count_list missingChunks i else 0)"
    unfolding ix by simp
  have dat: "\<forall>(i, d) \<in> set ?chunks. ce_chunks cached i = Some d"
    using collectChunks_data by fastforce
  show "\<exists>chunks. request_chunks k fileId missingChunks =
           (k, \<lparr>success = True, error = None, r_fileId = Some fileId, r_chunks = Some chunks\<rparr>) \<and>
         map fst chunks = filter (\<lambda>i. i \<in> dom (ce_chunks cached)) missingChunks \<and>
         (\<forall>(i, d) \<in> set chunks. ce_chunks cached i = Some d) \<and>
         (\<forall>i. count_list (map fst chunks) i =
               (if i \<in> dom (ce_chunks cached) then count_list missingChunks i else 0))"
    using a ix cnt dat by (intro exI[of _ ?chunks]) (simp add: request_chunks_def)
qed

text \<open>A miss, and a request for the indices 1, 5 and 2 of a cached file of three chunks.\<close>

theorem request_chunks_reply_witness:
  "map_of (chunkCache example_cache) ''0-alpha-alpha'' = None \<and>
   request_chunks example_cache ''0-alpha-alpha'' [1] =
     (example_cache, \<lparr>success = False, error = Some ''File not in cache'', r_fileId = None, r_chunks = None\<rparr>) \<and>
   (\<exists>cached. map_of (chunkCache example_cache) ''7-ninja-tokyo'' = Some cached \<and> nonempty_chunks cached \<and>
      request_chunks example_cache ''7-ninja-tokyo'' [1, 5, 2] =
        (example_cache, \<lparr>success = True, error = None, r_fileId = Some ''7-ninja-tokyo'',
                          r_chunks = Some [(1, ''sbG''), (2, ''8h'')]\<rparr>))"
proof -
  have n: "map_of (chunkCache example_cache) ''0-alpha-alpha'' = None"
    by (simp add: example_cache_def)
  obtain cached where c: "map_of (chunkCache example_cache) ''7-ninja-tokyo'' = Some cached"
    and ch: "ce_chunks cached = [0 \<mapsto> ''aGV'', 1 \<mapsto> ''sbG'', 2 \<mapsto> ''8h'']"
    by (simp add: example_cache_def)
  have ne: "nonempty_chunks cached"
    by (auto simp: nonempty_chunks_def ch split: if_splits)
  have r1: "request_chunks example_cache ''0-alpha-alpha'' [1] =
     (example_cache, \<lparr>success = False, error = Some ''File not in cache'', r_fileId = None, r_chunks = None\<rparr>)"
    using request_chunks_reply[of example_cache "''0-alpha-alpha''" "[1]"] n by simp
  obtain chunks where r2: "request_chunks example_cache ''7-ninja-tokyo'' [1, 5, 2] =
           (example_cache, \<lparr>success = True, error = None, r_fileId = Some ''7-ninja-tokyo'', r_chunks = Some chunks\<rparr>)"
      and ix: "map fst chunks = filter (\<lambda>i. i \<in> dom (ce_chunks cached)) [1, 5, 2]"
      and dat: "\<forall>(i, d) \<in> set chunks. ce_chunks cached i = Some d"
    using request_chunks_reply[of example_cache "''7-ninja-tokyo''" "[1, 5, 2]"] c ne by blast
  have "map fst chunks = [1, 2]" using ix by (simp add: ch)
  then obtain d1 d2 where "chunks = [(1, d1), (2, d2)]" by auto
  then have "chunks = [(1, ''sbG''), (2, ''8h'')]" using dat by (simp add: ch)
  then show ?thesis using n c ne r1 r2 by simp
qed

lemma chunk_nonempty:
  assumes "0 < cs" "0 \<le> i" "i < totalChunks_of b cs"
  shows "js_slice b (i * cs) ((i + 1) * cs) \<noteq> []"
proof -
  have "int (length b) > i * cs"
  proof (rule ccontr)
    assume "\<not> int (length b) > i * cs"
    then have "real_of_int (int (length b)) \<le> real_of_int i * real_of_int cs"
      by (metis not_less of_int_le_iff of_int_mult)
    then have "real_of_int (int (length b)) / real_of_int cs \<le> real_of_int i"
      using assms(1) by (simp add: pos_divide_le_eq)
    then have "totalChunks_of b cs \<le> i"
      unfolding totalChunks_of_def by (simp add: ceiling_le_iff)
    then show False using assms(3) by simp
  qed
  then have "nat i * nat cs < length b"
    using assms by (metis nat_mult_distrib nat_int zless_nat_conj nat_less_iff of_nat_0_le_iff mult_nonneg_nonneg less_imp_le)
  then show ?thesis
    using assms by (simp add: js_slice_chunk)
qed

lemma sendFile_nonempty_chunks:
  assumes "0 < chunkSize k"
    and "sendFile P k fileId tMeta clock tCache file data = Inr (fid, k', acts)"
    and "map_of (chunkCache k') fileId = Some cached"
  shows "nonempty_chunks cached"
proof -
  obtain buffer where d: "data = Some buffer"
    using assms(2) by (cases data) (auto simp: sendFile_def)
  have "ce_chunks cached =
          (\<lambda>i. if 0 \<le> i \<and> i < totalChunks_of (toBase64 P buffer) (chunkSize k)
                then Some (js_slice (toBase64 P buffer) (i * chunkSize k) ((i + 1) * chunkSize k))
                else None)"
    using assms(2,3) unfolding d
    by (auto simp: sendFile_def Let_def update_conv' uploadBatches_chunksMap cong: if_cong)
  then show ?thesis
    using chunk_nonempty[OF assms(1)] by (auto simp: nonempty_chunks_def split: if_splits)
qed

subsection \<open>Retention\<close>

lemma map_of_fold_delete:
  "map_of (fold AList.delete ks al) f = (if f \<in> set ks then None else map_of al f)"
  by (induction ks arbitrary: al) (auto simp: delete_conv')

lemma distinct_fold_delete:
  "distinct (map fst al) \<Longrightarrow> distinct (map fst (fold AList.delete ks al))"
  by (induction ks arbitrary: al) (auto simp: distinct_delete)

lemma cacheCleanup_lookup:
  assumes "distinct (map fst (chunkCache k))"
  shows "map_of (chunkCache (cacheCleanup k now)) f =
     (case map_of (chunkCache k) f of
        None \<Rightarrow> None
      | Some cached \<Rightarrow> if now - ce_timestamp cached > CACHE_RETENTION then None else Some cached)"
proof -
  let ?del = "map fst (filter (\<lambda>(fileId, cached). now - ce_timestamp cached > CACHE_RETENTION) (chunkCache k))"
  have "f \<in> set ?del \<longleftrightarrow> (\<exists>cached. map_of (chunkCache k) f = Some cached \<and> now - ce_timestamp cached > CACHE_RETENTION)"
    using assms by force
  then show ?thesis
    by (auto simp: cacheCleanup_def Let_def map_of_fold_delete split: option.splits)
qed

lemma cache_step_distinct:
  "distinct (map fst (chunkCache k)) \<Longrightarrow> distinct (map fst (chunkCache (cache_step k e)))"
  by (cases e)
     (auto simp: cacheCleanup_def Let_def distinct_fold_delete request_chunks_def transfer_confirmed_def
        distinct_delete distinct_update split: option.splits)

lemma cache_step_spares:
  assumes "distinct (map fst (chunkCache k))" "map_of (chunkCache k) fileId = Some entry"
    "spares fileId (ce_timestamp entry) e"
  shows "map_of (chunkCache (cache_step k e)) fileId = Some entry"
  using assms
  by (cases e)
     (auto simp: cacheCleanup_lookup request_chunks_def transfer_confirmed_def delete_conv' update_conv'
        split: option.splits)

lemma cache_steps_spare:
  assumes "distinct (map fst (chunkCache k))" "map_of (chunkCache k) fileId = Some entry"
    "\<forall>e \<in> set events. spares fileId (ce_timestamp entry) e"
  shows "map_of (chunkCache (foldl cache_step k events)) fileId = Some entry"
  using assms
proof (induction events arbitrary: k)
  case Nil
  then show ?case by simp
next
  case (Cons e events)
  have "map_of (chunkCache (cache_step k e)) fileId = Some entry"
    using Cons.prems by (intro cache_step_spares) auto
  moreover have "distinct (map fst (chunkCache (cache_step k e)))"
    using Cons.prems(1) by (rule cache_step_distinct)
  ultimately show ?case using Cons.IH Cons.prems(3) by simp
qed

text \<open>What \<^verbatim>\<open>sendFile\<close> does to the cache is the event \<open>Cached\<close> for the transfer code that
  it drew.\<close>

lemma sendFile_caches:
  assumes "sendFile P k fileId tMeta clock tCache file data = Inr (fid, k', acts)"
  shows "\<exists>entry. ce_timestamp entry = tCache \<and>
           chunkCache k' = chunkCache (cache_step k (Cached fileId entry))"
proof -
  obtain buffer where d: "data = Some buffer"
    using assms by (cases data) (auto simp: sendFile_def)
  show ?thesis
    using assms unfolding d
    by (intro exI[where x = "the (map_of (chunkCache k') fileId)"])
       (auto simp: sendFile_def Let_def update_conv')
qed

text \<open>
  Claim C5, as stated: an entry of the sender cache is retained for the five minutes
  after its creation unless a \<^verbatim>\<open>transfer-confirmed\<close> request for its \<open>fileId\<close> arrives. It is
  not when a later \<^verbatim>\<open>sendFile\<close> draws the same transfer code: the entry created at 1010 is
  replaced at 2020 by the entry of the second file, and the third chunk of the first
  file is no longer in the cache.
\<close>

theorem reupload_replaces_entry_counterexample:
  "map_option ce_timestamp (map_of (chunkCache example_cache) ''7-ninja-tokyo'') = Some 1010 \<and>
   map_option (\<lambda>e. ce_chunks e 2) (map_of (chunkCache example_cache) ''7-ninja-tokyo'') = Some (Some ''8h'') \<and>
   2020 - 1010 \<le> CACHE_RETENTION \<and>
   \<not> isl example_reupload \<and>
   map_option ce_timestamp (map_of (chunkCache (fst (snd (projr example_reupload)))) ''7-ninja-tokyo'')
     = Some 2020 \<and>
   map_option (\<lambda>e. ce_chunks e 2) (map_of (chunkCache (fst (snd (projr example_reupload)))) ''7-ninja-tokyo'')
     = Some None"
  by (simp add: example_reupload_def sendFile_def Let_def example_cache_def example_prims_def
      totalChunks_of_div uploadBatches_chunksMap CACHE_RETENTION_def)

text \<open>
  Claim C5, amended. An entry of the sender cache stays, unchanged, through every
  sequence of sweeper ticks not later than \<open>created_at + TTL\<close>, chunk requests, and
  confirmations and uploads of other transfers; an upload that draws the same transfer
  code replaces it, and \<^verbatim>\<open>destroy\<close> clears the cache. The sweeper removes exactly the
  entries with \<open>now - created_at > 300000\<close> (five minutes), and the \<^verbatim>\<open>transfer-confirmed\<close>
  handler deletes exactly the entry of the given \<open>fileId\<close> and replies
  \<^verbatim>\<open>{success: true}\<close>. The keys of the cache, a \<^verbatim>\<open>Map\<close>, are distinct.
\<close>

theorem sender_cache_retention:
  assumes "distinct (map fst (chunkCache k))"
  shows "(\<forall>fileId entry events.
            map_of (chunkCache k) fileId = Some entry \<and>
            (\<forall>e \<in> set events. spares fileId (ce_timestamp entry) e) \<longrightarrow>
            map_of (chunkCache (foldl cache_step k events)) fileId = Some entry) \<and>
         (\<forall>fileId entry. map_of (chunkCache (cache_step k (Cached fileId entry))) fileId = Some entry) \<and>
         chunkCache (cache_step k Destroy) = [] \<and>
         (\<forall>now fileId. map_of (chunkCache (cacheCleanup k now)) fileId =
            (case map_of (chunkCache k) fileId of
               None \<Rightarrow> None
             | Some cached \<Rightarrow> if now - ce_timestamp cached > 300000 then None else Some cached)) \<and>
         (\<forall>fileId. \<exists>k'. transfer_confirmed k fileId =
                           (k', \<lparr>success = True, error = None, r_fileId = None, r_chunks = None\<rparr>) \<and>
                         map_of (chunkCache k') = (map_of (chunkCache k))(fileId := None))"
proof (intro conjI allI impI)
  fix fileId entry events
  assume "map_of (chunkCache k) fileId = Some entry \<and>
            (\<forall>e \<in> set events. spares fileId (ce_timestamp entry) e)"
  then show "map_of (chunkCache (foldl cache_step k events)) fileId = Some entry"
    using cache_steps_spare[OF assms] by blast
next
  fix fileId entry
  show "map_of (chunkCache (cache_step k (Cached fileId entry))) fileId = Some entry"
    by (simp add: update_conv')
next
  show "chunkCache (cache_step k Destroy) = []" by simp
next
  fix now fileId
  show "map_of (chunkCache (cacheCleanup k now)) fileId =
            (case map_of (chunkCache k) fileId of
               None \<Rightarrow> None
             | Some cached \<Rightarrow> if now - ce_timestamp cached > 300000 then None else Some cached)"
    using cacheCleanup_lookup[OF assms, of now fileId]
    by (simp add: CACHE_RETENTION_def split: option.splits)
next
  fix fileId
  show "\<exists>k'. transfer_confirmed k fileId =
                           (k', \<lparr>success = True, error = None, r_fileId = None, r_chunks = None\<rparr>) \<and>
                         map_of (chunkCache k') = (map_of (chunkCache k))(fileId := None)"
    by (simp add: transfer_confirmed_def delete_conv')
qed

text \<open>An entry cached at time 1010 survives a tick one minute later, a request, a tick
  exactly 300000 ms after its creation and the confirmation of another transfer; the
  tick one millisecond later evicts it.\<close>

theorem sender_cache_retention_witness:
  "distinct (map fst (chunkCache example_cache)) \<and>
   (\<exists>entry. map_of (chunkCache example_cache) ''7-ninja-tokyo'' = Some entry \<and>
      spares ''7-ninja-tokyo'' (ce_timestamp entry) (Tick 61010) \<and>
      spares ''7-ninja-tokyo'' (ce_timestamp entry) (RequestChunks ''7-ninja-tokyo'' [1]) \<and>
      spares ''7-ninja-tokyo'' (ce_timestamp entry) (Tick 301010) \<and>
      spares ''7-ninja-tokyo'' (ce_timestamp entry) (TransferConfirmed ''0-alpha-alpha'') \<and>
      map_of (chunkCache (foldl cache_step example_cache
         [Tick 61010, RequestChunks ''7-ninja-tokyo'' [1], Tick 301010, TransferConfirmed ''0-alpha-alpha'']))
         ''7-ninja-tokyo'' = Some entry) \<and>
   map_of (chunkCache (cacheCleanup example_cache 301011)) ''7-ninja-tokyo'' = None"
proof -
  have d: "distinct (map fst (chunkCache example_cache))"
    by (simp add: example_cache_def)
  obtain entry where e: "map_of (chunkCache example_cache) ''7-ninja-tokyo'' = Some entry"
    and t: "ce_timestamp entry = 1010"
    by (simp add: example_cache_def)
  have s: "\<forall>ev \<in> set [Tick 61010, RequestChunks ''7-ninja-tokyo'' [1], Tick 301010,
                          TransferConfirmed ''0-alpha-alpha'']. spares ''7-ninja-tokyo'' (ce_timestamp entry) ev"
    by (simp add: t CACHE_RETENTION_def)
  note ret = sender_cache_retention[OF d]
  have keep: "map_of (chunkCache (foldl cache_step example_cache
         [Tick 61010, RequestChunks ''7-ninja-tokyo'' [1], Tick 301010, TransferConfirmed ''0-alpha-alpha'']))
         ''7-ninja-tokyo'' = Some entry"
    using ret e s by blast
  have "map_of (chunkCache (cacheCleanup example_cache 301011)) ''7-ninja-tokyo'' =
          (case map_of (chunkCache example_cache) ''7-ninja-tokyo'' of
               None \<Rightarrow> None
             | Some cached \<Rightarrow> if 301011 - ce_timestamp cached > 300000 then None else Some cached)"
    using ret by blast
  then have gone: "map_of (chunkCache (cacheCleanup example_cache 301011)) ''7-ninja-tokyo'' = None"
    by (simp add: e t)
  show ?thesis using d e s keep gone by simp
qed

section \<open>Kunai: reassembly on the receive path\<close>

declare assemble.simps [simp del] performSweep.simps [simp del] performTimeoutSweep.simps [simp del]

lemma assemble_flag:
  "fst (snd (assemble rc n i s ok miss)) = (ok \<and> (\<forall>j. i \<le> j \<and> j < n \<longrightarrow> has_chunk rc j))"
proof (induction rc n i s ok miss rule: assemble.induct)
  case (1 rc n i s ok miss)
  show ?case
  proof (cases "i < n")
    case False
    then show ?thesis by (subst assemble.simps) auto
  next
    case True
    have split: "(\<forall>j. i \<le> j \<and> j < n \<longrightarrow> has_chunk rc j) =
                 (has_chunk rc i \<and> (\<forall>j. i + 1 \<le> j \<and> j < n \<longrightarrow> has_chunk rc j))"
      using True by (metis add1_zle_eq order_le_less)
    show ?thesis
    proof (cases "rc i")
      case None
      then show ?thesis
        using True 1(1)[OF True None] split
        by (subst assemble.simps) (simp add: has_chunk_def)
    next
      case (Some d)
      then show ?thesis
        using True 1(2)[OF True Some] 1(3)[OF True Some] split
        by (subst assemble.simps) (auto simp: has_chunk_def)
    qed
  qed
qed

lemma assemble_string:
  "(\<forall>j. i \<le> j \<and> j < n \<longrightarrow> has_chunk rc j) \<Longrightarrow>
     fst (assemble rc n i s ok miss) = s @ concat (map (stored rc) [i..n - 1])"
proof (induction rc n i s ok miss rule: assemble.induct)
  case (1 rc n i s ok miss)
  show ?case
  proof (cases "i < n")
    case False
    then show ?thesis by (subst assemble.simps) auto
  next
    case True
    then have u: "[i..n - 1] = i # [i + 1..n - 1]" by (simp add: upto_rec1)
    have hi: "has_chunk rc i" using 1(4) True by simp
    then obtain d where d: "rc i = Some d" "d \<noteq> []"
      by (auto simp: has_chunk_def split: option.splits)
    have rest: "\<forall>j. i + 1 \<le> j \<and> j < n \<longrightarrow> has_chunk rc j" using 1(4) by simp
    have st: "stored rc i = d" using d by (simp add: stored_def)
    show ?thesis
      using True d 1(2)[OF True d(1) d(2) rest] u st
      by (subst assemble.simps) simp
  qed
qed

lemma assemble_missing:
  "snd (snd (assemble rc n i s ok miss)) = miss @ filter (\<lambda>j. \<not> has_chunk rc j) [i..n - 1]"
proof (induction rc n i s ok miss rule: assemble.induct)
  case (1 rc n i s ok miss)
  show ?case
  proof (cases "i < n")
    case False
    then show ?thesis by (subst assemble.simps) auto
  next
    case True
    then have u: "[i..n - 1] = i # [i + 1..n - 1]" by (simp add: upto_rec1)
    show ?thesis
    proof (cases "rc i")
      case None
      then show ?thesis
        using True 1(1)[OF True None] u
        by (subst assemble.simps) (simp add: has_chunk_def)
    next
      case (Some d)
      then show ?thesis
        using True 1(2)[OF True Some] 1(3)[OF True Some] u
        by (subst assemble.simps) (auto simp: has_chunk_def)
    qed
  qed
qed

lemma assemble_emit:
  assumes "assemble (receivedChunks r) (md_totalChunks metadata) 0 [] True [] = (b, ok, miss)"
    and "ok" and "EmitFileReceived res \<in> set (reassembleFile P b metadata fileId)"
  shows "delivered_complete P metadata fileId r res"
proof -
  have all: "\<forall>j. 0 \<le> j \<and> j < md_totalChunks metadata \<longrightarrow> has_chunk (receivedChunks r) j"
    using assemble_flag[of "receivedChunks r" "md_totalChunks metadata" 0 "[]" True "[]"] assms(1,2)
    by simp
  have "b = concat_stored (receivedChunks r) (md_totalChunks metadata)"
    using assemble_string[OF all, of "[]" True "[]"] assms(1) by (simp add: concat_stored_def)
  then show ?thesis
    using all assms(3)
    by (auto simp: delivered_complete_def reassembleFile_def split: option.splits)
qed

lemma finishSweep_emit:
  assumes "finishSweep P metadata fileId r = (r', acts)" "EmitFileReceived res \<in> set acts"
  shows "delivered_complete P metadata fileId r' res"
proof -
  obtain b ok miss where a: "assemble (receivedChunks r) (md_totalChunks metadata) 0 [] True [] = (b, ok, miss)"
    by (metis prod_cases3)
  show ?thesis
  proof (cases ok)
    case True
    then have "r' = r" "acts = reassembleFile P b metadata fileId"
      using assms(1) a by (auto simp: finishSweep_def)
    then show ?thesis using assemble_emit[OF a True] assms(2) by simp
  next
    case False
    then have "acts = []" using assms(1) a by (auto simp: finishSweep_def)
    then show ?thesis using assms(2) by simp
  qed
qed

lemma finishTimeoutSweep_emit:
  assumes "finishTimeoutSweep P peerAddresses metadata fileId r = (r', acts)"
    "EmitFileReceived res \<in> set acts"
  shows "delivered_complete P metadata fileId r' res"
proof -
  obtain b ok miss where a: "assemble (receivedChunks r) (md_totalChunks metadata) 0 [] True [] = (b, ok, miss)"
    by (metis prod_cases3)
  show ?thesis
  proof (cases ok)
    case True
    then have "r' = r" "EmitFileReceived res \<in> set (reassembleFile P b metadata fileId)"
      using assms a by (auto simp: finishTimeoutSweep_def split: if_splits)
    then show ?thesis using assemble_emit[OF a True] by simp
  next
    case False
    then have "EmitFileReceived res \<notin> set acts"
      using assms(1) a by (auto simp: finishTimeoutSweep_def split: if_splits)
    then show ?thesis using assms(2) by simp
  qed
qed

lemma performSweep_finish:
  "\<exists>r0. performSweep P scan metadata fileId r n = finishSweep P metadata fileId r0"
proof (induction P scan metadata fileId r n rule: performSweep.induct)
  case (1 P scan metadata fileId r n)
  show ?case
    using 1[OF refl refl refl]
    by (subst performSweep.simps) (auto simp: Let_def)
qed

lemma performTimeoutSweep_finish:
  "\<exists>r0. performTimeoutSweep P scan peerAddresses metadata fileId r n =
          finishTimeoutSweep P peerAddresses metadata fileId r0"
proof (induction P scan peerAddresses metadata fileId r n rule: performTimeoutSweep.induct)
  case (1 P scan peerAddresses metadata fileId r n)
  show ?case
    using 1[OF refl refl refl]
    by (subst performTimeoutSweep.simps) (auto simp: Let_def)
qed

lemma onChunksReply_emit:
  assumes "onChunksReply P metadata fileId senderAddress r response = (r', acts)"
    "EmitFileReceived res \<in> set acts"
  shows "delivered_complete P metadata fileId r' res"
proof -
  have s: "success response" using assms by (auto simp: onChunksReply_def split: if_splits)
  then obtain chunks where c: "r_chunks response = Some chunks"
    using assms by (cases "r_chunks response") (auto simp: onChunksReply_def)
  let ?r1 = "r\<lparr>receivedChunks := foldl (\<lambda>rc (index, d). rc(index \<mapsto> d)) (receivedChunks r) chunks\<rparr>"
  obtain b ok miss where a: "assemble (receivedChunks ?r1) (md_totalChunks metadata) 0 [] True [] = (b, ok, miss)"
    by (metis prod_cases3)
  show ?thesis
  proof (cases ok)
    case True
    then have "r' = ?r1" "EmitFileReceived res \<in> set (reassembleFile P b metadata fileId)"
      using assms a s c by (auto simp: onChunksReply_def Let_def)
    then show ?thesis using assemble_emit[OF a True] by simp
  next
    case False
    then have "acts = []" using assms(1) a s c by (auto simp: onChunksReply_def Let_def)
    then show ?thesis using assms(2) by simp
  qed
qed

text \<open>
  Claim C1. \<^verbatim>\<open>file-received\<close> is emitted by the end of the final sweeps (entered from
  the chunk subscription), by the end of the timeout sweeps and by the reply to
  \<^verbatim>\<open>request-chunks\<close>, and nowhere else. Whenever one of them emits it, the receiver
  state \<open>r'\<close> at that moment has a non-empty string at every index in
  \<open>[0, totalChunks)\<close>, the emitted data is the base64 decoding of the stored strings of
  the indices \<open>0\<close> to \<open>totalChunks - 1\<close> concatenated in ascending order, and the emitted
  size is \<^verbatim>\<open>metadata.size\<close>. Hence no file result is delivered while an index in the
  range is absent.
\<close>

theorem file_received_complete:
  assumes "onChunk P scan metadata fileId r chunk chunkId = (r', acts) \<or>
           onTimeout P scan peerAddresses metadata fileId r = (r', acts) \<or>
           onChunksReply P metadata fileId senderAddress r response = (r', acts)"
    and "EmitFileReceived res \<in> set acts"
  shows "(\<forall>i. 0 \<le> i \<and> i < md_totalChunks metadata \<longrightarrow>
             (\<exists>d. receivedChunks r' i = Some d \<and> d \<noteq> [])) \<and>
         fromBase64 P (concat (map (stored (receivedChunks r')) [0..md_totalChunks metadata - 1]))
           = Some (fr_data res) \<and>
         fr_size res = md_size metadata \<and> fr_filename res = md_name metadata \<and> fr_fileId res = fileId"
proof -
  have "delivered_complete P metadata fileId r' res"
    using assms(1)
  proof (elim disjE)
    assume a: "onChunk P scan metadata fileId r chunk chunkId = (r', acts)"
    obtain r1 start where l: "chunkListener metadata r chunk chunkId = (r1, start)" by force
    have "start" using a l assms(2) by (cases start) (auto simp: onChunk_def)
    then have "performSweep P scan metadata fileId r1 0 = (r', acts)"
      using a l by (simp add: onChunk_def)
    then show ?thesis
      using performSweep_finish[of P scan metadata fileId r1 0] finishSweep_emit assms(2) by metis
  next
    assume a: "onTimeout P scan peerAddresses metadata fileId r = (r', acts)"
    then have "performTimeoutSweep P scan peerAddresses metadata fileId
                 (r\<lparr>isProcessing := True, listening := False\<rparr>) 0 = (r', acts)"
      using assms(2) by (auto simp: onTimeout_def split: if_splits)
    then show ?thesis
      using performTimeoutSweep_finish[of P scan peerAddresses metadata fileId _ 0]
        finishTimeoutSweep_emit assms(2) by metis
  next
    assume "onChunksReply P metadata fileId senderAddress r response = (r', acts)"
    then show ?thesis using onChunksReply_emit assms(2) by blast
  qed
  then show ?thesis
    by (auto simp: delivered_complete_def concat_stored_def has_chunk_def split: option.splits)
qed

text \<open>The third chunk of three arrives: the sweeps find nothing missing and the six bytes
  are delivered.\<close>

theorem file_received_complete_witness:
  "\<exists>r' res. onChunk example_prims (\<lambda>n. []) example_metadata ''7-ninja-tokyo'' example_receiver
               (Some \<lparr>gc_index = Some 2, gc_data = Some ''8h''\<rparr>) ''c3'' = (r', [EmitFileReceived res]) \<and>
            receivedChunks r' 0 = Some ''aGV'' \<and> receivedChunks r' 1 = Some ''sbG'' \<and>
            receivedChunks r' 2 = Some ''8h'' \<and>
            fromBase64 example_prims (''aGV'' @ ''sbG'' @ ''8h'') = Some (fr_data res) \<and>
            fr_data res = [104, 101, 108, 108, 111, 33] \<and> fr_size res = 6"
proof -
  let ?r' = "\<lparr>receivedChunks = [0 \<mapsto> ''aGV'', 1 \<mapsto> ''sbG'', 2 \<mapsto> ''8h''], collectedChunks = 3,
              isProcessing = True, timeoutId = False, processedChunkIds = {''c3'', ''c1'', ''c2''},
              listening = False\<rparr>"
  let ?res = "\<lparr>fr_filename = ''h.txt'', fr_size = 6, fr_data = [104, 101, 108, 108, 111, 33],
               fr_fileId = ''7-ninja-tokyo''\<rparr>"
  have e: "onChunk example_prims (\<lambda>n. []) example_metadata ''7-ninja-tokyo'' example_receiver
               (Some \<lparr>gc_index = Some 2, gc_data = Some ''8h''\<rparr>) ''c3'' = (?r', [EmitFileReceived ?res])"
    by (simp add: onChunk_def chunkListener_def valid_chunk_def storeChunk_def has_chunk_def
        example_receiver_def example_metadata_def performSweep.simps finishSweep_def assemble.simps
        reassembleFile_def example_prims_def maxSweeps_def Let_def)
  have m: "EmitFileReceived ?res \<in> set [EmitFileReceived ?res]" by simp
  have u: "[0..(2::int)] = [0, 1, 2]" by (simp add: upto_rec1)
  from file_received_complete[OF disjI1[OF e] m]
  have "fromBase64 example_prims (concat (map (stored (receivedChunks ?r')) [0..md_totalChunks example_metadata - 1]))
           = Some (fr_data ?res)"
    by blast
  then have "fromBase64 example_prims (''aGV'' @ ''sbG'' @ ''8h'') = Some (fr_data ?res)"
    by (simp add: example_metadata_def u stored_def)
  then show ?thesis using e by (intro exI[of _ ?r'] exI[of _ ?res]) simp
qed

section \<open>Yumi: deduplication\<close>

lemma seen_grows_refl: "seen_grows t b b"
  by (simp add: seen_grows_def)

lemma seen_grows_trans: "seen_grows t b b1 \<Longrightarrow> seen_grows t b1 b2 \<Longrightarrow> seen_grows t b b2"
  unfolding seen_grows_def by metis

lemma seen_grows_eq: "seen b' = seen b \<Longrightarrow> seen_grows t b b'"
  by (simp add: seen_grows_def)

lemma sendRaw_seen: "seen_grows t b (sendRaw P b t m)"
  by (simp add: seen_grows_def sendRaw_def Let_def)

lemma makeEncryptSendPacket_seen:
  "makeEncryptSendPacket P b t n bn pkstr ps = Inr b' \<Longrightarrow> seen_grows t b b'"
  by (auto simp: makeEncryptSendPacket_def Let_def sendRaw_seen split: sum.splits)

lemma updateConnections_seen: "seen (fst (updateConnections b)) = seen b"
  by (simp add: updateConnections_def Let_def)

lemma newPeer_seen: "seen (fst (newPeer b addr pkstr ekstr t)) = seen b"
  by (simp add: newPeer_def Let_def updateConnections_def)

lemma sawPeer_seen: "seen (fst (sawPeer P b pkstr ekstr t)) = seen b"
  by (simp add: sawPeer_def Let_def newPeer_seen split: option.splits)

lemma rpcCall_seen: "seen_grows t b (fst (rpcCall P b t n bn pkstr call args nonce))"
  by (auto simp: rpcCall_def seen_grows_refl makeEncryptSendPacket_seen split: property.splits sum.splits)

lemma dispatch_seen: "seen_grows t b (fst (dispatch P b t n bn pkt))"
  by (auto simp: dispatch_def Let_def seen_grows_refl rpcCall_seen seen_grows_eq split_beta
      split: option.splits property.splits)

lemma handleSigned_seen: "seen_grows t b (fst (handleSigned P b t n bn sig p))"
proof -
  have d: "seen_grows t b (fst (dispatch P (fst (sawPeer P b pkstr ekstr t)) t n bn pkt))" for pkstr ekstr pkt
    using dispatch_seen[of t "fst (sawPeer P b pkstr ekstr t)" P n bn pkt]
      seen_grows_eq[OF sawPeer_seen[of P b pkstr ekstr t], of t]
    by (rule seen_grows_trans[rotated])
  show ?thesis
    unfolding handleSigned_def
    by (simp add: Let_def seen_grows_refl split_beta d split: option.splits)
qed

lemma onMessage_duplicate:
  "seen_truthy b (toHex (drop 16 (nacl_hash P message))) \<Longrightarrow> onMessage P b t n bn message = (b, [])"
  by (simp add: onMessage_def seen_truthy_def Let_def)

lemma onMessage_fresh:
  assumes "\<not> seen_truthy b (toHex (drop 16 (nacl_hash P message)))"
  shows "onMessage P b t n bn message =
           (let b1 = b\<lparr>seen := (seen b)(toHex (drop 16 (nacl_hash P message)) \<mapsto> t)\<rparr> in
            case parse_unpacked P (toString P message) of
              None \<Rightarrow> (b1, [])
            | Some unp \<Rightarrow>
                (case decryptUnpacked P b1 unp of
                   None \<Rightarrow> (b1, [])
                 | Some unp' \<Rightarrow>
                     (case u_p unp' of
                        None \<Rightarrow> (b1, [])
                      | Some p \<Rightarrow> handleSigned P b1 t n bn (u_s unp') p)))"
  using assms by (simp add: onMessage_def seen_truthy_def Let_def)

lemma onMessage_fresh_cases:
  assumes "\<not> seen_truthy b (toHex (drop 16 (nacl_hash P message)))"
  shows "onMessage P b t n bn message = (b\<lparr>seen := (seen b)(toHex (drop 16 (nacl_hash P message)) \<mapsto> t)\<rparr>, []) \<or>
         (\<exists>sig p. onMessage P b t n bn message =
             handleSigned P (b\<lparr>seen := (seen b)(toHex (drop 16 (nacl_hash P message)) \<mapsto> t)\<rparr>) t n bn sig p)"
  unfolding onMessage_fresh[OF assms] Let_def
  by (simp split: option.splits) blast

lemma onMessage_seen_grows: "seen_grows t b (fst (onMessage P b t n bn message))"
proof (cases "seen_truthy b (toHex (drop 16 (nacl_hash P message)))")
  case True
  then show ?thesis by (simp add: onMessage_duplicate seen_grows_refl)
next
  case False
  let ?b1 = "b\<lparr>seen := (seen b)(toHex (drop 16 (nacl_hash P message)) \<mapsto> t)\<rparr>"
  have g1: "seen_grows t b ?b1" by (simp add: seen_grows_def)
  have "seen_grows t b (fst (handleSigned P ?b1 t n bn sig p))" for sig p
    using g1 handleSigned_seen[of t ?b1 P n bn sig p] by (rule seen_grows_trans)
  then show ?thesis
    using g1 onMessage_fresh_cases[OF False, of t n bn] by auto
qed

lemma seen_grows_keeps:
  assumes "seen_grows t b b'" "seen b h = Some t"
  shows "seen b' h = Some t"
proof -
  have "seen b' h = seen b h \<or> seen b' h = Some t"
    using assms(1) by (simp add: seen_grows_def)
  then show ?thesis using assms(2) by auto
qed

lemma onMessage_marks_seen:
  assumes "t \<noteq> 0"
  shows "seen_truthy (fst (onMessage P b t n bn message)) (toHex (drop 16 (nacl_hash P message)))"
proof (cases "seen_truthy b (toHex (drop 16 (nacl_hash P message)))")
  case True
  then show ?thesis by (simp add: onMessage_duplicate)
next
  case False
  define h where "h = toHex (drop 16 (nacl_hash P message))"
  define b1 where "b1 = b\<lparr>seen := (seen b)(h \<mapsto> t)\<rparr>"
  have s1: "seen b1 h = Some t" by (simp add: b1_def)
  have hs: "seen (fst (handleSigned P b1 t n bn sig p)) h = Some t" for sig p
    using handleSigned_seen s1 by (rule seen_grows_keeps)
  have "onMessage P b t n bn message = (b1, []) \<or>
         (\<exists>sig p. onMessage P b t n bn message = handleSigned P b1 t n bn sig p)"
    using onMessage_fresh_cases[OF False, of t n bn] by (simp add: h_def b1_def)
  then have "seen (fst (onMessage P b t n bn message)) h = Some t"
    using s1 hs by auto
  then show ?thesis using assms by (simp add: seen_truthy_def h_def)
qed

lemma seen_truthy_grows:
  assumes "t \<noteq> 0" "seen_grows t b b'" "seen_truthy b h"
  shows "seen_truthy b' h"
proof -
  have "seen b' h = seen b h \<or> seen b' h = Some t"
    using assms(2) by (simp add: seen_grows_def)
  then show ?thesis using assms(1,3) by (auto simp: seen_truthy_def)
qed

lemma receiveAll_Cons:
  "receiveAll P b ((t, n, bn, m) # rs) = receiveAll P (fst (onMessage P b t n bn m)) rs"
  by (simp add: receiveAll_def)

lemma take_split: "i < j \<Longrightarrow> take j xs = take (Suc i) xs @ drop (Suc i) (take j xs)"
proof -
  assume "i < j"
  then have "take (Suc i) (take j xs) = take (Suc i) xs" by (simp add: min_def)
  then show ?thesis by (metis append_take_drop_id)
qed

lemma receiveAll_keeps_seen:
  assumes "\<forall>r \<in> set rs. fst r \<noteq> 0" "seen_truthy b h"
  shows "seen_truthy (receiveAll P b rs) h"
  using assms
proof (induction rs arbitrary: b)
  case Nil
  then show ?case by (simp add: receiveAll_def)
next
  case (Cons r rs)
  obtain t n bn m where r: "r = (t, n, bn, m)" by (cases r) auto
  have t: "t \<noteq> 0" using Cons.prems(1) r by simp
  have "seen_truthy (fst (onMessage P b t n bn m)) h"
    using t onMessage_seen_grows Cons.prems(2) by (rule seen_truthy_grows)
  then show ?case using Cons.IH Cons.prems(1) r by (simp add: receiveAll_Cons)
qed

lemma receiveAll_append:
  "receiveAll P b (rs @ rs') = receiveAll P (receiveAll P b rs) rs'"
  by (simp add: receiveAll_def)

text \<open>
  Claim C2. In every sequence of receipts, a receipt of a byte string whose hash equals
  the hash of an earlier receipt is dropped at once: the state is unchanged and nothing
  is emitted, so nothing is parsed, verified, recorded in the peer table or delivered,
  and each hash is delivered to the application at most once. The first receipt puts
  the hash into the seen table. The table stores the clock reading and the test is its
  truthiness, so the readings of \<^verbatim>\<open>Date.now()\<close> are non-zero.
\<close>

theorem duplicate_dropped:
  assumes "\<forall>r \<in> set receipts. fst r \<noteq> 0"
    and "i < j" and "j < length receipts"
    and "receipts ! i = (ti, ni, bni, mi)" and "receipts ! j = (tj, nj, bnj, mj)"
    and "toHex (drop 16 (nacl_hash P mj)) = toHex (drop 16 (nacl_hash P mi))"
  shows "seen_truthy (receiveAll P bugout (take (Suc i) receipts)) (toHex (drop 16 (nacl_hash P mi))) \<and>
         onMessage P (receiveAll P bugout (take j receipts)) tj nj bnj mj =
           (receiveAll P bugout (take j receipts), [])"
proof -
  define h where "h = toHex (drop 16 (nacl_hash P mi))"
  have i: "i < length receipts" using assms(2,3) by simp
  have "fst (receipts ! i) \<noteq> 0" using assms(1) i by simp
  then have ti: "ti \<noteq> 0" using assms(4) by simp
  have "take (Suc i) receipts = take i receipts @ [(ti, ni, bni, mi)]"
    using i assms(4) by (simp add: take_Suc_conv_app_nth)
  then have "receiveAll P bugout (take (Suc i) receipts) =
               fst (onMessage P (receiveAll P bugout (take i receipts)) ti ni bni mi)"
    by (simp add: receiveAll_append receiveAll_def)
  then have first: "seen_truthy (receiveAll P bugout (take (Suc i) receipts)) h"
    using onMessage_marks_seen[OF ti] by (simp add: h_def)
  have rest: "\<forall>r \<in> set (drop (Suc i) (take j receipts)). fst r \<noteq> 0"
    using assms(1) by (meson in_set_dropD in_set_takeD)
  have "receiveAll P bugout (take j receipts) =
          receiveAll P (receiveAll P bugout (take (Suc i) receipts)) (drop (Suc i) (take j receipts))"
    using take_split[OF assms(2), of receipts] receiveAll_append by metis
  then have "seen_truthy (receiveAll P bugout (take j receipts)) h"
    using receiveAll_keeps_seen[OF rest first] by simp
  then show ?thesis
    using first assms(6) by (simp add: onMessage_duplicate h_def)
qed

lemma example_toString [simp]: "toString example_prims (toBuffer example_prims s) = s"
  by (induction s) (simp_all add: example_prims_def unat_of_nat)

text \<open>The same message received at 1000 and again at 1005.\<close>

theorem duplicate_dropped_witness:
  "(1000::int) \<noteq> 0 \<and> (1005::int) \<noteq> 0 \<and> (0::nat) < 1 \<and>
   onMessage example_prims
      (receiveAll example_prims example_yumi [(1000, [1], [2], toBuffer example_prims ''signed-stale'')])
      1005 [3] [4] (toBuffer example_prims ''signed-stale'') =
     (receiveAll example_prims example_yumi [(1000, [1], [2], toBuffer example_prims ''signed-stale'')], [])"
  using duplicate_dropped[of "[(1000, [1], [2], toBuffer example_prims ''signed-stale''),
                              (1005, [3], [4], toBuffer example_prims ''signed-stale'')]"
      0 1 1000 "[1]" "[2]" "toBuffer example_prims ''signed-stale''" 1005 "[3]" "[4]"
      "toBuffer example_prims ''signed-stale''" example_prims example_yumi]
  by simp

section \<open>Yumi: identifier and freshness\<close>

lemma decryptUnpacked_seen [simp]:
  "decryptUnpacked P (b\<lparr>seen := x\<rparr>) unp = decryptUnpacked P b unp"
  by (simp add: decryptUnpacked_def split: option.splits)

lemma handleSigned_rejected:
  assumes "parse_packet P p = Some pkt" "p_i pkt \<noteq> identifier' b \<or> p_t pkt + timeout b \<le> t"
  shows "handleSigned P b t n bn sig p = (b, [])"
  using assms by (auto simp: handleSigned_def Let_def split: option.splits)

text \<open>
  Claim C8. A received message that carries a signed packet whose identifier \<open>i\<close> is
  not the local channel identifier, or whose send time satisfies
  \<open>t + timeout < now\<close>, is discarded: at most the seen table changes (the hash of the
  message is recorded), the peer table and everything else stay as they are, and no
  event is emitted, so no message, request, response, ping or leave is processed.
\<close>

theorem stale_or_foreign_discarded:
  assumes "carried_packet P bugout message = Some pkt"
    and "p_i pkt \<noteq> identifier' bugout \<or> p_t pkt + timeout bugout < t"
  shows "(onMessage P bugout t nonceBytes boxNonce message = (bugout, []) \<or>
          onMessage P bugout t nonceBytes boxNonce message =
            (bugout\<lparr>seen := (seen bugout)(toHex (drop 16 (nacl_hash P message)) \<mapsto> t)\<rparr>, [])) \<and>
         peers (fst (onMessage P bugout t nonceBytes boxNonce message)) = peers bugout \<and>
         snd (onMessage P bugout t nonceBytes boxNonce message) = []"
proof -
  define b1 where "b1 = bugout\<lparr>seen := (seen bugout)(toHex (drop 16 (nacl_hash P message)) \<mapsto> t)\<rparr>"
  obtain unp unp' p where u: "parse_unpacked P (toString P message) = Some unp"
    and d: "decryptUnpacked P bugout unp = Some unp'" and p: "u_p unp' = Some p"
    and pp: "parse_packet P p = Some pkt"
    using assms(1) by (auto simp: carried_packet_def split: option.splits)
  have "p_i pkt \<noteq> identifier' b1 \<or> p_t pkt + timeout b1 \<le> t"
    using assms(2) by (auto simp: b1_def)
  then have h: "handleSigned P b1 t nonceBytes boxNonce (u_s unp') p = (b1, [])"
    using pp by (rule handleSigned_rejected[rotated])
  have "onMessage P bugout t nonceBytes boxNonce message = (bugout, []) \<or>
        onMessage P bugout t nonceBytes boxNonce message = (b1, [])"
    using u d p h by (simp add: onMessage_def Let_def b1_def)
  then show ?thesis by (auto simp: b1_def)
qed

text \<open>A packet sent exactly \<open>timeout + 1\<close> ms before it is received.\<close>

theorem stale_or_foreign_discarded_witness:
  "carried_packet example_prims example_yumi (toBuffer example_prims ''signed-stale'') = Some example_stale \<and>
   p_t example_stale + timeout example_yumi < 301001 \<and>
   p_t example_stale = 301001 - (timeout example_yumi + 1) \<and>
   peers (fst (onMessage example_prims example_yumi 301001 [] [] (toBuffer example_prims ''signed-stale'')))
     = peers example_yumi \<and>
   snd (onMessage example_prims example_yumi 301001 [] [] (toBuffer example_prims ''signed-stale'')) = []"
proof -
  have c: "carried_packet example_prims example_yumi (toBuffer example_prims ''signed-stale'') = Some example_stale"
    by (simp add: carried_packet_def) (simp add: example_prims_def decryptUnpacked_def example_stale_def)
  have t: "p_i example_stale \<noteq> identifier' example_yumi \<or> p_t example_stale + timeout example_yumi < 301001"
    by (simp add: example_stale_def example_yumi_def)
  show ?thesis
    using stale_or_foreign_discarded[OF c t, of "[]" "[]"] c
    by (simp add: example_stale_def example_yumi_def)
qed

section \<open>Yumi: the packet hash\<close>

lemma length_toHex: "length (toHex bs) = 2 * length bs"
  by (induction bs) (simp_all add: toHex_def byteHex_def)

lemma example_hash_length: "length (nacl_hash example_prims m) = 64"
  by (simp add: example_prims_def)

text \<open>
  Claim C3, as stated: the key under which a packet is stored and deduplicated is the
  16-byte truncation of SHA-512. It is not: \<^verbatim>\<open>nacl.hash(message).slice(16)\<close> drops the
  first 16 of the 64 bytes and keeps 48, so the key has 96 hexadecimal digits and not
  32.
\<close>

theorem hash_is_16_bytes_counterexample:
  "length (fst (hd (messages (sendRaw example_prims example_yumi 1000 ''signed-stale'')))) \<noteq> 2 * 16"
proof -
  have "fst (hd (messages (sendRaw example_prims example_yumi 1000 ''signed-stale''))) =
          toHex (drop 16 (nacl_hash example_prims (toBuffer example_prims ''signed-stale'')))"
    by (simp add: sendRaw_def Let_def example_yumi_def)
  then show ?thesis
    by (simp add: length_toHex example_hash_length)
qed

text \<open>
  Claim C3, amended. The key is the hexadecimal form of the 48 bytes that follow the
  first 16 bytes of the SHA-512 digest of the packet bytes. \<^verbatim>\<open>sendRaw\<close> stores the
  packet under this key and records the key in its seen table; the subscription of a
  receiver decodes the stored record to the same bytes, and \<^verbatim>\<open>onMessage\<close> computes the
  same key: after the receipt it is in the receiver's seen table, and the sender itself
  drops its own packet. The digest has 64 bytes and base64 decoding inverts the
  encoding of the packet.
\<close>

theorem sendRaw_key_is_receiver_key:
  assumes "length (nacl_hash P (toBuffer P message)) = 64"
    and "fromBase64 P (toBase64 P (toBuffer P message)) = Some (toBuffer P message)"
    and "toBase64 P (toBuffer P message) \<noteq> []" and "now \<noteq> 0" and "t \<noteq> 0"
  shows "let key = toHex (drop 16 (nacl_hash P (toBuffer P message)));
             data = \<lparr>msg_m = toBase64 P (toBuffer P message), msg_t = now, msg_k = key\<rparr>;
             sender' = sendRaw P sender now message
         in length key = 2 * 48 \<and>
            messages sender' = AList.update key data (messages sender) \<and>
            seen sender' key = Some now \<and>
            messageListener P (Some data) = Some (toBuffer P message) \<and>
            seen_truthy (fst (onMessage P receiver t nonceBytes boxNonce (toBuffer P message))) key \<and>
            onMessage P sender' t nonceBytes boxNonce (toBuffer P message) = (sender', [])"
proof -
  define key where "key = toHex (drop 16 (nacl_hash P (toBuffer P message)))"
  have l: "length key = 2 * 48" using assms(1) by (simp add: key_def length_toHex)
  have s: "seen (sendRaw P sender now message) key = Some now"
    by (simp add: sendRaw_def Let_def key_def)
  then have "seen_truthy (sendRaw P sender now message) key"
    using assms(4) by (simp add: seen_truthy_def)
  then have own: "onMessage P (sendRaw P sender now message) t nonceBytes boxNonce (toBuffer P message)
                   = (sendRaw P sender now message, [])"
    unfolding key_def by (rule onMessage_duplicate)
  have r: "seen_truthy (fst (onMessage P receiver t nonceBytes boxNonce (toBuffer P message))) key"
    unfolding key_def using assms(5) by (rule onMessage_marks_seen)
  have m: "messageListener P (Some \<lparr>msg_m = toBase64 P (toBuffer P message), msg_t = now, msg_k = key\<rparr>)
             = Some (toBuffer P message)"
    using assms(2,3,4) by (simp add: messageListener_def)
  have w: "messages (sendRaw P sender now message) =
           AList.update key \<lparr>msg_m = toBase64 P (toBuffer P message), msg_t = now, msg_k = key\<rparr> (messages sender)"
    by (simp add: sendRaw_def Let_def key_def)
  show ?thesis
    unfolding Let_def key_def[symmetric] using l s own r m w by simp
qed

theorem sendRaw_key_is_receiver_key_witness:
  "length (nacl_hash example_prims (toBuffer example_prims ''hi'')) = 64 \<and>
   fromBase64 example_prims (toBase64 example_prims (toBuffer example_prims ''hi''))
     = Some (toBuffer example_prims ''hi'') \<and>
   toBase64 example_prims (toBuffer example_prims ''hi'') \<noteq> [] \<and> (1000::int) \<noteq> 0 \<and> (1005::int) \<noteq> 0 \<and>
   length (toHex (drop 16 (nacl_hash example_prims (toBuffer example_prims ''hi'')))) = 96 \<and>
   seen (sendRaw example_prims example_yumi 1000 ''hi'')
        (toHex (drop 16 (nacl_hash example_prims (toBuffer example_prims ''hi'')))) = Some 1000 \<and>
   seen_truthy (fst (onMessage example_prims example_yumi 1005 [] [] (toBuffer example_prims ''hi'')))
        (toHex (drop 16 (nacl_hash example_prims (toBuffer example_prims ''hi''))))"
proof -
  have b: "toBuffer example_prims ''hi'' = [104, 105]" by (simp add: example_prims_def)
  have h: "length (nacl_hash example_prims (toBuffer example_prims ''hi'')) = 64"
    by (rule example_hash_length)
  have r: "fromBase64 example_prims (toBase64 example_prims (toBuffer example_prims ''hi''))
             = Some (toBuffer example_prims ''hi'')"
    unfolding b by (simp add: example_prims_def)
  have n: "toBase64 example_prims (toBuffer example_prims ''hi'') \<noteq> []"
    unfolding b by (simp add: example_prims_def)
  have t: "(1000::int) \<noteq> 0" "(1005::int) \<noteq> 0" by simp_all
  show ?thesis
    using sendRaw_key_is_receiver_key[OF h r n t, of example_yumi example_yumi "[]" "[]"] h r n
    by (simp add: Let_def)
qed

section \<open>Yumi: unknown peers\<close>

lemma lookup_own: "own key = Some v \<Longrightarrow> lookup own key = Own v"
  by (simp add: lookup_def)

lemma lookup_missing: "own key = None \<Longrightarrow> \<not> inherited key \<Longrightarrow> lookup own key = Missing"
  by (simp add: lookup_def)

lemma lookup_inherited: "own key = None \<Longrightarrow> inherited key \<Longrightarrow> lookup own key = Inherited"
  by (simp add: lookup_def)

text \<open>A key made by \<^verbatim>\<open>toHex\<close> consists of hexadecimal digits, and no name of
  \<^verbatim>\<open>Object.prototype\<close> does.\<close>

lemma hexdigit_range: "hexdigit n \<in> set ''0123456789abcdef''"
  unfolding hexdigit_def by (rule nth_mem) simp

lemma toHex_digits: "set (toHex arr) \<subseteq> set ''0123456789abcdef''"
proof (induction arr)
  case Nil
  then show ?case by (simp add: toHex_def)
next
  case (Cons b arr)
  have "set (byteHex b) \<subseteq> set ''0123456789abcdef''"
    using hexdigit_range[of "unat b div 16"] hexdigit_range[of "unat b mod 16"]
    by (simp add: byteHex_def)
  then show ?case using Cons by (simp add: toHex_def)
qed

lemma toHex_not_inherited: "\<not> inherited (toHex arr)"
proof
  assume "inherited (toHex arr)"
  then have "toHex arr \<in> set object_prototype" by (simp add: inherited_def)
  moreover have "\<forall>name \<in> set object_prototype. \<not> set name \<subseteq> set ''0123456789abcdef''"
    by (simp add: object_prototype_def)
  ultimately have "\<not> set (toHex arr) \<subseteq> set ''0123456789abcdef''" by blast
  then show False using toHex_digits[of arr] by blast
qed

lemma address_callbacks [simp]: "address P (b\<lparr>callbacks := x\<rparr>) pkstr = address P b pkstr"
  by (simp add: address_def)

lemma peers_keyed_lookup:
  assumes "peers_keyed P b" "map_of (peers b) a = Some peer"
  shows "address P b (pi_pk peer) = a"
proof -
  have "(a, peer) \<in> set (peers b)" using assms(2) by (rule map_of_SomeD)
  then show ?thesis using assms(1) by (auto simp: peers_keyed_def list_all_iff)
qed

lemma encryptPacket_known:
  assumes "peers_keyed P b" "map_of (peers b) a = Some peer"
  shows "encryptPacket P b nonce (pi_pk peer) pkt \<noteq> Inl (NotSeenNoEncryptionKey x) \<and>
         encryptPacket P b nonce (pi_pk peer) pkt \<noteq> Inl (NotSeenNoPublicKey x)"
  using assms peers_keyed_lookup[OF assms]
  by (auto simp: encryptPacket_def Let_def split: option.splits)

lemma encryptPacket_known_callbacks:
  assumes "peers_keyed P b" "map_of (peers b) a = Some peer"
  shows "encryptPacket P (b\<lparr>callbacks := c\<rparr>) nonce (pi_pk peer) pkt \<noteq> Inl (NotSeenNoEncryptionKey x) \<and>
         encryptPacket P (b\<lparr>callbacks := c\<rparr>) nonce (pi_pk peer) pkt \<noteq> Inl (NotSeenNoPublicKey x)"
  using assms peers_keyed_lookup[OF assms]
  by (auto simp: encryptPacket_def Let_def split: option.splits)

lemma unknownPeer_iff:
  "unknownPeer e = ((\<exists>x. e = Some (NotSeenNoPublicKey x)) \<or> (\<exists>x. e = Some (NotSeenNoEncryptionKey x)))"
  by (cases e rule: unknownPeer.cases) auto

lemma send_unknown:
  assumes "map_of (peers b) a = None" "\<not> inherited a" "a \<noteq> []" "truthy v"
  shows "send P b now n bn (JStr a) (Some v) = (b, Some (NotSeenNoPublicKey a))"
  using assms by (simp add: send_def Let_def property_key_def lookup_missing)

lemma rpc_unknown:
  assumes "map_of (peers b) a = None" "\<not> inherited a"
  shows "rpc P b now n bn cn a call (Some (ArgVal args)) callback = (b, Some (NotSeenNoPublicKey a))"
  using assms by (simp add: rpc_def Let_def lookup_missing split: option.splits)

text \<open>Under a name of \<^verbatim>\<open>Object.prototype\<close> that is no own property of the peer table, the
  calls go on to \<^verbatim>\<open>encryptPacket\<close> with an undefined key, which throws for the own address
  (never an entry of the table: \<^verbatim>\<open>sawPeer\<close> ignores it); \<^verbatim>\<open>rpc\<close> has stored the callback by
  then.\<close>

lemma encryptPacket_own:
  assumes "map_of (peers b) (address P b []) = None"
  shows "encryptPacket P b nonce [] pkt = Inl (NotSeenNoEncryptionKey (address P b []))"
  using assms by (simp add: encryptPacket_def Let_def)

lemma send_inherited:
  assumes "map_of (peers b) a = None" "inherited a" "a \<noteq> []" "truthy v"
    and "map_of (peers b) (address P b []) = None"
  shows "send P b now n bn (JStr a) (Some v) = (b, Some (NotSeenNoEncryptionKey (address P b [])))"
  using assms
  by (simp add: send_def Let_def property_key_def lookup_inherited encryptPacket_own)

lemma rpc_inherited:
  assumes "map_of (peers b) a = None" "inherited a"
    and "map_of (peers b) (address P b []) = None"
  shows "rpc P b now n bn cn a call (Some (ArgVal args)) callback =
           (b\<lparr>callbacks := (callbacks b)(toHex cn := callback)\<rparr>,
            Some (NotSeenNoEncryptionKey (address P b [])))"
proof -
  have "encryptPacket P (b\<lparr>callbacks := (callbacks b)(toHex cn := callback)\<rparr>) bn [] pkt =
          Inl (NotSeenNoEncryptionKey (address P b []))" for pkt
    using assms(3) by (simp add: encryptPacket_def Let_def)
  then show ?thesis
    using assms(1,2)
    by (simp add: rpc_def Let_def lookup_inherited makeEncryptSendPacket_def split: option.splits)
qed

lemma rpc_constructor_example:
  "rpc example_prims example_yumi 1000 [1] [2] [3] ''constructor'' (JStr ''request-chunks'')
       (Some (ArgVal JNull)) (Some throwing_once) =
     (example_yumi\<lparr>callbacks := (callbacks example_yumi)(toHex [3] \<mapsto> throwing_once)\<rparr>,
      Some (NotSeenNoEncryptionKey (address example_prims example_yumi [])))"
proof -
  have "map_of (peers example_yumi) ''constructor'' = None" "inherited ''constructor''"
    "map_of (peers example_yumi) (address example_prims example_yumi []) = None"
    by (simp_all add: example_yumi_def inherited_def object_prototype_def)
  then show ?thesis by (rule rpc_inherited)
qed

lemma send_known:
  assumes "peers_keyed P b" "map_of (peers b) a = Some peer"
  shows "\<not> unknownPeer (snd (send P b now n bn (JStr a) (Some v)))"
proof -
  have e: "\<not> unknownPeer (Some err)" if "encryptPacket P b bn (pi_pk peer) pkt = Inl err" for err pkt
    using encryptPacket_known[OF assms, of bn pkt] that by (auto simp: unknownPeer_iff)
  show ?thesis
    using assms(2) e
    by (auto simp: send_def Let_def property_key_def lookup_own split: sum.splits)
qed

lemma rpc_known:
  assumes "peers_keyed P b" "map_of (peers b) a = Some peer"
  shows "\<not> unknownPeer (snd (rpc P b now n bn cn a call (Some (ArgVal args)) callback))"
proof -
  have e: "\<not> unknownPeer (Some err)"
    if "encryptPacket P (b\<lparr>callbacks := c\<rparr>) bn (pi_pk peer) pkt = Inl err" for err pkt c
    using encryptPacket_known_callbacks[OF assms, of c bn pkt] that by (auto simp: unknownPeer_iff)
  show ?thesis
    using assms(2) e
    by (auto simp: rpc_def Let_def makeEncryptSendPacket_def lookup_own split: sum.splits option.splits)
qed

text \<open>
  Claim C7, as stated: a directed \<^verbatim>\<open>send(address, value)\<close> to an address that is not in
  the peer table raises. It does not when the value is falsy: \<^verbatim>\<open>send\<close> tells its two
  forms apart by \<^verbatim>\<open>if (!message)\<close>, so \<^verbatim>\<open>send(address, 0)\<close> is the broadcast of the
  address string; nothing is raised and a packet is written.
\<close>

theorem send_falsy_value_counterexample:
  "map_of (peers example_yumi) ''nobody'' = None \<and>
   snd (send example_prims example_yumi 1000 [1] [2] (JStr ''nobody'') (Some (JNum 0))) = None \<and>
   messages (fst (send example_prims example_yumi 1000 [1] [2] (JStr ''nobody'') (Some (JNum 0))))
     \<noteq> messages example_yumi"
  by (simp add: send_def Let_def sendRaw_def example_yumi_def)

text \<open>
  Claim C7, amended. For every address that is not in the peer table and is not a
  property name of \<^verbatim>\<open>Object.prototype\<close>, \<^verbatim>\<open>rpc(address, call, args, callback)\<close> raises the
  error \<^verbatim>\<open>not seen - no public key\<close> to the caller, and so does \<^verbatim>\<open>send(address, value)\<close>
  when the address is a non-empty string and the value is truthy; the state is then
  unchanged: no packet is written and no callback is registered. When the address is in
  the peer table, and the table is keyed by the addresses of the stored signing keys (as
  \<^verbatim>\<open>sawPeer\<close> keeps it, lemma \<open>sawPeer_peers_keyed\<close>), neither call raises an unknown-peer
  error. (What the calls do under an inherited name is in the lemmas \<open>send_inherited\<close>
  and \<open>rpc_inherited\<close>.)
\<close>

theorem unknown_peer_raised:
  "(map_of (peers b) a = None \<and> \<not> inherited a \<and> a \<noteq> [] \<and> truthy v \<longrightarrow>
      send P b now n bn (JStr a) (Some v) = (b, Some (NotSeenNoPublicKey a))) \<and>
   (map_of (peers b) a = None \<and> \<not> inherited a \<longrightarrow>
      rpc P b now n bn cn a call (Some (ArgVal args)) callback = (b, Some (NotSeenNoPublicKey a))) \<and>
   (map_of (peers b) a \<noteq> None \<and> peers_keyed P b \<longrightarrow>
      \<not> unknownPeer (snd (send P b now n bn (JStr a) (Some v))) \<and>
      \<not> unknownPeer (snd (rpc P b now n bn cn a call (Some (ArgVal args)) callback)))"
proof (intro conjI impI)
  assume "map_of (peers b) a = None \<and> \<not> inherited a \<and> a \<noteq> [] \<and> truthy v"
  then show "send P b now n bn (JStr a) (Some v) = (b, Some (NotSeenNoPublicKey a))"
    by (simp add: send_unknown)
next
  assume "map_of (peers b) a = None \<and> \<not> inherited a"
  then show "rpc P b now n bn cn a call (Some (ArgVal args)) callback = (b, Some (NotSeenNoPublicKey a))"
    by (simp add: rpc_unknown)
next
  assume k: "map_of (peers b) a \<noteq> None \<and> peers_keyed P b"
  then obtain peer where p: "map_of (peers b) a = Some peer" by auto
  show "\<not> unknownPeer (snd (send P b now n bn (JStr a) (Some v)))"
    using k p by (simp add: send_known)
  show "\<not> unknownPeer (snd (rpc P b now n bn cn a call (Some (ArgVal args)) callback))"
    using k p by (simp add: rpc_known)
qed

theorem unknown_peer_raised_witness:
  "map_of (peers example_yumi) ''nobody'' = None \<and> \<not> inherited ''nobody'' \<and> ''nobody'' \<noteq> [] \<and>
   truthy (JArr [JNum 1]) \<and>
   send example_prims example_yumi 1000 [1] [2] (JStr ''nobody'') (Some (JArr [JNum 1]))
     = (example_yumi, Some (NotSeenNoPublicKey ''nobody'')) \<and>
   rpc example_prims example_yumi 1000 [1] [2] [3] ''nobody'' (JStr ''request-chunks'')
       (Some (ArgVal JNull)) (Some returning)
     = (example_yumi, Some (NotSeenNoPublicKey ''nobody'')) \<and>
   map_of (peers example_known) (address example_prims example_yumi ''pkB'') \<noteq> None \<and>
   peers_keyed example_prims example_known \<and>
   \<not> unknownPeer (snd (send example_prims example_known 1000 [1] [2]
                          (JStr (address example_prims example_yumi ''pkB'')) (Some (JArr [JNum 1])))) \<and>
   \<not> unknownPeer (snd (rpc example_prims example_known 1000 [1] [2] [3]
                          (address example_prims example_yumi ''pkB'') (JStr ''request-chunks'')
                          (Some (ArgVal JNull)) (Some returning)))"
proof -
  have u: "map_of (peers example_yumi) ''nobody'' = None \<and> \<not> inherited ''nobody'' \<and> ''nobody'' \<noteq> [] \<and>
           truthy (JArr [JNum 1])"
    by (simp add: example_yumi_def inherited_def object_prototype_def)
  have k: "map_of (peers example_known) (address example_prims example_yumi ''pkB'') \<noteq> None \<and>
           peers_keyed example_prims example_known"
    by (simp add: example_known_def peers_keyed_def address_def)
  note A = unknown_peer_raised[of example_yumi "''nobody''" "JArr [JNum 1]" example_prims 1000 "[1]" "[2]" "[3]"
        "JStr ''request-chunks''" JNull "Some returning"]
  note B = unknown_peer_raised[of example_known "address example_prims example_yumi ''pkB''" "JArr [JNum 1]"
        example_prims 1000 "[1]" "[2]" "[3]" "JStr ''request-chunks''" JNull "Some returning"]
  have a1: "send example_prims example_yumi 1000 [1] [2] (JStr ''nobody'') (Some (JArr [JNum 1]))
     = (example_yumi, Some (NotSeenNoPublicKey ''nobody''))"
    using A[THEN conjunct1] u by (rule mp)
  have a2: "rpc example_prims example_yumi 1000 [1] [2] [3] ''nobody'' (JStr ''request-chunks'')
       (Some (ArgVal JNull)) (Some returning)
     = (example_yumi, Some (NotSeenNoPublicKey ''nobody''))"
    using A[THEN conjunct2, THEN conjunct1] conjI[OF u[THEN conjunct1] u[THEN conjunct2, THEN conjunct1]]
    by (rule mp)
  have b: "\<not> unknownPeer (snd (send example_prims example_known 1000 [1] [2]
                          (JStr (address example_prims example_yumi ''pkB'')) (Some (JArr [JNum 1])))) \<and>
   \<not> unknownPeer (snd (rpc example_prims example_known 1000 [1] [2] [3]
                          (address example_prims example_yumi ''pkB'') (JStr ''request-chunks'')
                          (Some (ArgVal JNull)) (Some returning)))"
    using B[THEN conjunct2, THEN conjunct2] k by (rule mp)
  show ?thesis
    by (intro conjI u[THEN conjunct1] u[THEN conjunct2, THEN conjunct1]
        u[THEN conjunct2, THEN conjunct2, THEN conjunct1]
        u[THEN conjunct2, THEN conjunct2, THEN conjunct2]
        a1 a2 k[THEN conjunct1] k[THEN conjunct2] b[THEN conjunct1] b[THEN conjunct2])
qed

text \<open>The peer table stays keyed by the addresses of its signing keys.\<close>

lemma list_all_update:
  "list_all Q al \<Longrightarrow> Q (k, v) \<Longrightarrow> list_all Q (AList.update k v al)"
  by (induction al) auto

lemma peers_keyed_update:
  assumes "peers_keyed P b" "address P b (pi_pk peer) = a" "publicKey b' = publicKey b"
    "peers b' = AList.update a peer (peers b)"
  shows "peers_keyed P b'"
proof -
  have "address P b' = address P b" using assms(3) by (simp add: address_def fun_eq_iff)
  then show ?thesis
    using assms(1,2,4) by (simp add: peers_keyed_def list_all_update)
qed

lemma updateConnections_keeps:
  "peers (fst (updateConnections b)) = peers b \<and> publicKey (fst (updateConnections b)) = publicKey b"
  by (simp add: updateConnections_def Let_def)

lemma newPeer_keeps:
  "peers (fst (newPeer b addr pkstr ekstr t)) =
     AList.update addr \<lparr>pi_pk = pkstr, pi_ek = ekstr, pi_last = t\<rparr> (peers b) \<and>
   publicKey (fst (newPeer b addr pkstr ekstr t)) = publicKey b"
  by (simp add: newPeer_def Let_def split_beta updateConnections_keeps)

lemma newPeer_peers_keyed:
  assumes "peers_keyed P b"
  shows "peers_keyed P (fst (newPeer b (address P b pkstr) pkstr ekstr t))"
proof -
  have 1: "address P b (pi_pk \<lparr>pi_pk = pkstr, pi_ek = ekstr, pi_last = t\<rparr>) = address P b pkstr" by simp
  have 2: "publicKey (fst (newPeer b (address P b pkstr) pkstr ekstr t)) = publicKey b"
    by (simp add: newPeer_keeps)
  have 3: "peers (fst (newPeer b (address P b pkstr) pkstr ekstr t)) =
     AList.update (address P b pkstr) \<lparr>pi_pk = pkstr, pi_ek = ekstr, pi_last = t\<rparr> (peers b)"
    by (simp add: newPeer_keeps)
  show ?thesis using assms 1 2 3 by (rule peers_keyed_update)
qed

lemma refresh_peers_keyed:
  assumes "peers_keyed P b" "map_of (peers b) (address P b pkstr) = Some peer"
  shows "peers_keyed P (b\<lparr>peers := AList.update (address P b pkstr) (peer\<lparr>pi_ek := ekstr, pi_last := t\<rparr>) (peers b)\<rparr>)"
proof -
  have 1: "address P b (pi_pk (peer\<lparr>pi_ek := ekstr, pi_last := t\<rparr>)) = address P b pkstr"
    using peers_keyed_lookup[OF assms] by simp
  have 2: "publicKey (b\<lparr>peers := AList.update (address P b pkstr) (peer\<lparr>pi_ek := ekstr, pi_last := t\<rparr>) (peers b)\<rparr>)
            = publicKey b" by simp
  have 3: "peers (b\<lparr>peers := AList.update (address P b pkstr) (peer\<lparr>pi_ek := ekstr, pi_last := t\<rparr>) (peers b)\<rparr>)
            = AList.update (address P b pkstr) (peer\<lparr>pi_ek := ekstr, pi_last := t\<rparr>) (peers b)" by simp
  show ?thesis using assms(1) 1 2 3 by (rule peers_keyed_update)
qed

lemma sawPeer_peers_keyed:
  assumes "peers_keyed P b"
  shows "peers_keyed P (fst (sawPeer P b pkstr ekstr t))"
proof (cases "map_of (peers b) (address P b pkstr)")
  case None
  then show ?thesis
    by (simp add: sawPeer_def Let_def assms newPeer_peers_keyed)
next
  case (Some peer)
  then show ?thesis
    using refresh_peers_keyed[OF assms Some]
    by (simp add: sawPeer_def Let_def assms newPeer_peers_keyed)
qed

section \<open>Yumi: RPC responses\<close>

lemma invocations_append: "invocations k (xs @ ys) = invocations k xs @ invocations k ys"
  by (simp add: invocations_def)

lemma invocations_Nil [simp]: "invocations k [] = []"
  by (simp add: invocations_def)

lemma invocations_Cons [simp]:
  "invocations k (e # es) = (if is_invocation k e then e # invocations k es else invocations k es)"
  by (simp add: invocations_def)






lemma updateConnections_callbacks [simp]:
  "callbacks (fst (updateConnections b)) = callbacks b"
  "invocations k (snd (updateConnections b)) = []"
  "filter is_response (snd (updateConnections b)) = []"
  by (simp_all add: updateConnections_def Let_def)

lemma newPeer_callbacks [simp]:
  "callbacks (fst (newPeer b addr pkstr ekstr t)) = callbacks b"
  "invocations k (snd (newPeer b addr pkstr ekstr t)) = []"
  "filter is_response (snd (newPeer b addr pkstr ekstr t)) = []"
  by (simp_all add: newPeer_def Let_def split_beta invocations_append)

lemma sawPeer_callbacks [simp]:
  "callbacks (fst (sawPeer P b pkstr ekstr t)) = callbacks b"
  "invocations k (snd (sawPeer P b pkstr ekstr t)) = []"
  "filter is_response (snd (sawPeer P b pkstr ekstr t)) = []"
  by (simp_all add: sawPeer_def Let_def split: option.splits)



text \<open>The branch of \<^verbatim>\<open>dispatch\<close> for a response, by what the table of callbacks holds under
  the nonce.\<close>

lemma dispatch_response:
  assumes "p_y pkt = ''rr''"
  shows "dispatch P b t n bn pkt =
     (case lookup (callbacks b) (property_key P (p_rn pkt)) of
        Missing \<Rightarrow> (b, [])
      | Own cb \<Rightarrow>
          (case JSON_parse P (or_null (p_rr pkt)) of
             None \<Rightarrow> (b, [])
           | Some result \<Rightarrow>
               if truthy result
               then (if throws cb result
                     then b\<lparr>callbacks := (callbacks b)(property_key P (p_rn pkt) \<mapsto> after cb result)\<rparr>
                     else b\<lparr>callbacks := (callbacks b)(property_key P (p_rn pkt) := None)\<rparr>,
                     [RpcResponse (address P b (p_pk pkt)) (p_rn pkt) result,
                      CallCallback (property_key P (p_rn pkt)) cb result])
               else (b, []))
      | Inherited \<Rightarrow>
          (case JSON_parse P (or_null (p_rr pkt)) of
             None \<Rightarrow> (b, [])
           | Some result \<Rightarrow>
               if truthy result
               then (b, [RpcResponse (address P b (p_pk pkt)) (p_rn pkt) result,
                         CallInherited (property_key P (p_rn pkt))])
               else (b, [])))"
  using assms by (simp add: dispatch_def Let_def split: option.splits property.splits)


text \<open>\<^verbatim>\<open>onMessage\<close> decomposed: a duplicate, a message that is not accepted, or an accepted
  packet that is recorded and dispatched.\<close>

lemma handleSigned_accepted:
  "handleSigned P b t n bn sig p =
     (case parse_packet P p of
        None \<Rightarrow> (b, [])
      | Some pkt \<Rightarrow>
          (case sig of
             None \<Rightarrow> (b, [])
           | Some s \<Rightarrow>
               (case bs58_decode P (p_pk pkt) of
                  None \<Rightarrow> (b, [])
                | Some pkBytes \<Rightarrow>
                    if nacl_verify P (toBuffer P p) (fromHex P s) pkBytes \<and>
                       p_i pkt = identifier' b \<and> p_t pkt + timeout b > t
                    then (fst (dispatch P (fst (sawPeer P b (p_pk pkt) (p_ek pkt) t)) t n bn pkt),
                          snd (sawPeer P b (p_pk pkt) (p_ek pkt) t) @
                          snd (dispatch P (fst (sawPeer P b (p_pk pkt) (p_ek pkt) t)) t n bn pkt))
                    else (b, []))))"
  by (simp add: handleSigned_def Let_def split_beta split: option.splits)

lemma onMessage_decomposed:
  "onMessage P b t n bn m =
     (if seen_truthy b (toHex (drop 16 (nacl_hash P m))) then (b, [])
      else
        (case accepted_packet P b t m of
           None \<Rightarrow> (b\<lparr>seen := (seen b)(toHex (drop 16 (nacl_hash P m)) \<mapsto> t)\<rparr>, [])
         | Some pkt \<Rightarrow>
             (fst (dispatch P (fst (sawPeer P (b\<lparr>seen := (seen b)(toHex (drop 16 (nacl_hash P m)) \<mapsto> t)\<rparr>)
                                      (p_pk pkt) (p_ek pkt) t)) t n bn pkt),
              snd (sawPeer P (b\<lparr>seen := (seen b)(toHex (drop 16 (nacl_hash P m)) \<mapsto> t)\<rparr>)
                     (p_pk pkt) (p_ek pkt) t) @
              snd (dispatch P (fst (sawPeer P (b\<lparr>seen := (seen b)(toHex (drop 16 (nacl_hash P m)) \<mapsto> t)\<rparr>)
                                      (p_pk pkt) (p_ek pkt) t)) t n bn pkt))))"
  unfolding onMessage_def accepted_packet_def handleSigned_accepted seen_truthy_def Let_def
  by (simp split: option.splits)



text \<open>One accepted response whose nonce denotes the key of a registered callback.\<close>

lemma onMessage_response:
  assumes "\<not> seen_truthy b (toHex (drop 16 (nacl_hash P m)))"
    and "accepted_packet P b t m = Some pkt" and "p_y pkt = ''rr''"
    and "property_key P (p_rn pkt) = k" and "callbacks b k = Some cb"
  shows "case JSON_parse P (or_null (p_rr pkt)) of
           None \<Rightarrow> invocations k (snd (onMessage P b t n bn m)) = [] \<and>
                   callbacks (fst (onMessage P b t n bn m)) k = Some cb
         | Some result \<Rightarrow>
             if truthy result
             then invocations k (snd (onMessage P b t n bn m)) = [CallCallback k cb result] \<and>
                  callbacks (fst (onMessage P b t n bn m)) k =
                    (if throws cb result then Some (after cb result) else None)
             else invocations k (snd (onMessage P b t n bn m)) = [] \<and>
                  callbacks (fst (onMessage P b t n bn m)) k = Some cb"
proof -
  define b1 where "b1 = b\<lparr>seen := (seen b)(toHex (drop 16 (nacl_hash P m)) \<mapsto> t)\<rparr>"
  define b2 where "b2 = fst (sawPeer P b1 (p_pk pkt) (p_ek pkt) t)"
  have c2: "callbacks b2 k = Some cb" using assms(5) by (simp add: b2_def b1_def)
  have l: "lookup (callbacks b2) k = Own cb" using c2 by (rule lookup_own)
  have o: "onMessage P b t n bn m =
             (fst (dispatch P b2 t n bn pkt),
              snd (sawPeer P b1 (p_pk pkt) (p_ek pkt) t) @ snd (dispatch P b2 t n bn pkt))"
    using assms(1,2) by (simp add: onMessage_decomposed b1_def b2_def)
  show ?thesis
    unfolding o using c2 l assms(4)
    by (simp add: dispatch_response[OF assms(3)] invocations_append split: option.splits)
qed


text \<open>A response leaves the seen table with the hash of its message added, and no message
  changes the fields that decide whether a packet is accepted.\<close>

lemma dispatch_response_seen:
  "p_y pkt = ''rr'' \<Longrightarrow> seen (fst (dispatch P b t n bn pkt)) = seen b"
  by (simp add: dispatch_response split: property.splits option.splits)

lemma onMessage_response_seen:
  assumes "\<not> seen_truthy b (toHex (drop 16 (nacl_hash P m)))"
    and "accepted_packet P b t m = Some pkt" and "p_y pkt = ''rr''"
  shows "seen (fst (onMessage P b t n bn m)) = (seen b)(toHex (drop 16 (nacl_hash P m)) \<mapsto> t)"
  using assms by (simp add: onMessage_decomposed dispatch_response_seen sawPeer_seen)

lemma sawPeer_static:
  "identifier' (fst (sawPeer P b pkstr ekstr t)) = identifier' b \<and>
   timeout (fst (sawPeer P b pkstr ekstr t)) = timeout b \<and>
   boxSecretKey (fst (sawPeer P b pkstr ekstr t)) = boxSecretKey b \<and>
   publicKey (fst (sawPeer P b pkstr ekstr t)) = publicKey b"
  by (simp add: sawPeer_def newPeer_def updateConnections_def Let_def split: option.splits)

lemma dispatch_response_static:
  "p_y pkt = ''rr'' \<Longrightarrow>
     identifier' (fst (dispatch P b t n bn pkt)) = identifier' b \<and>
     timeout (fst (dispatch P b t n bn pkt)) = timeout b \<and>
     boxSecretKey (fst (dispatch P b t n bn pkt)) = boxSecretKey b"
  by (simp add: dispatch_response split: property.splits option.splits)

lemma accepted_packet_cong:
  assumes "identifier' b' = identifier' b" "timeout b' = timeout b" "boxSecretKey b' = boxSecretKey b"
  shows "accepted_packet P b' t m = accepted_packet P b t m"
proof -
  have d: "decryptUnpacked P b' = decryptUnpacked P b"
    unfolding decryptUnpacked_def assms(3) by (rule refl)
  show ?thesis
    unfolding accepted_packet_def d assms(1) assms(2) by (rule refl)
qed

lemma onMessage_response_accepts:
  assumes "\<not> seen_truthy b (toHex (drop 16 (nacl_hash P m)))"
    and "accepted_packet P b t m = Some pkt" and "p_y pkt = ''rr''"
  shows "accepted_packet P (fst (onMessage P b t n bn m)) t' m' = accepted_packet P b t' m'"
proof (rule accepted_packet_cong)
  define b1 where "b1 = b\<lparr>seen := (seen b)(toHex (drop 16 (nacl_hash P m)) \<mapsto> t)\<rparr>"
  define b2 where "b2 = fst (sawPeer P b1 (p_pk pkt) (p_ek pkt) t)"
  have o: "fst (onMessage P b t n bn m) = fst (dispatch P b2 t n bn pkt)"
    using assms(1,2) by (simp add: onMessage_decomposed b1_def b2_def)
  have s: "identifier' b2 = identifier' b \<and> timeout b2 = timeout b \<and> boxSecretKey b2 = boxSecretKey b"
    using sawPeer_static[of P b1 "p_pk pkt" "p_ek pkt" t] by (simp add: b2_def b1_def)
  show "identifier' (fst (onMessage P b t n bn m)) = identifier' b"
    "timeout (fst (onMessage P b t n bn m)) = timeout b"
    "boxSecretKey (fst (onMessage P b t n bn m)) = boxSecretKey b"
    using dispatch_response_static[OF assms(3), of P b2 t n bn] s by (simp_all add: o)
qed

text \<open>One accepted response whose nonce is a name that the table inherits and no key of
  it: the event is emitted and what is inherited is called; the table stays as it is, so
  the same happens at every such response.\<close>

lemma onMessage_inherited:
  assumes "\<not> seen_truthy b (toHex (drop 16 (nacl_hash P m)))"
    and "accepted_packet P b t m = Some pkt" and "p_y pkt = ''rr''"
    and "property_key P (p_rn pkt) = k" and "callbacks b k = None" and "inherited k"
    and "JSON_parse P (or_null (p_rr pkt)) = Some result" and "truthy result"
  shows "filter is_response (snd (onMessage P b t n bn m)) =
           [RpcResponse (address P b (p_pk pkt)) (p_rn pkt) result, CallInherited k] \<and>
         callbacks (fst (onMessage P b t n bn m)) = callbacks b"
proof -
  define b1 where "b1 = b\<lparr>seen := (seen b)(toHex (drop 16 (nacl_hash P m)) \<mapsto> t)\<rparr>"
  define b2 where "b2 = fst (sawPeer P b1 (p_pk pkt) (p_ek pkt) t)"
  have c2: "callbacks b2 = callbacks b" by (simp add: b2_def b1_def)
  have "publicKey b2 = publicKey b"
    using sawPeer_static[of P b1 "p_pk pkt" "p_ek pkt" t] by (simp add: b2_def b1_def)
  then have a2: "address P b2 = address P b" by (simp add: address_def fun_eq_iff)
  have l: "lookup (callbacks b2) k = Inherited"
    using assms(5,6) by (simp add: c2 lookup_inherited)
  have o: "onMessage P b t n bn m =
             (fst (dispatch P b2 t n bn pkt),
              snd (sawPeer P b1 (p_pk pkt) (p_ek pkt) t) @ snd (dispatch P b2 t n bn pkt))"
    using assms(1,2) by (simp add: onMessage_decomposed b1_def b2_def)
  show ?thesis
    unfolding o using c2 a2 l assms(4,7,8)
    by (simp add: dispatch_response[OF assms(3)])
qed

text \<open>The key under which \<^verbatim>\<open>rpc\<close> stores the callback is the hexadecimal text of the call
  nonce; the packet carries the nonce itself, a \<^verbatim>\<open>Uint8Array\<close>, whose JSON form is an
  object. Read as a property key, the \<^verbatim>\<open>rn\<close> of such a packet, and of a reply that echoes
  it, is \<^verbatim>\<open>[object Object]\<close>, which is not the key of the callback.\<close>

lemma rpc_nonce_key:
  "property_key P (Some (uint8array_json callnonce)) = ''[object Object]'' \<and>
   toHex callnonce \<noteq> ''[object Object]''"
proof -
  have "\<not> set ''[object Object]'' \<subseteq> set ''0123456789abcdef''" by simp
  then have "toHex callnonce \<noteq> ''[object Object]''"
    using toHex_digits[of callnonce] by metis
  then show ?thesis by (simp add: property_key_def uint8array_json_def)
qed

subsection \<open>The examples\<close>

lemma example_fresh: "\<not> seen_truthy example_yumi h"
  by (simp add: seen_truthy_def example_yumi_def)


lemma example_accepted_result:
  "accepted_packet example_prims example_yumi 1000 (toBuffer example_prims ''signed-result'')
     = Some example_result"
  by (simp add: accepted_packet_def)
     (simp add: example_prims_def decryptUnpacked_def example_result_def example_yumi_def)

lemma example_accepted_again:
  "accepted_packet example_prims example_yumi 1005 (toBuffer example_prims ''signed-again'')
     = Some example_again"
  by (simp add: accepted_packet_def)
     (simp add: example_prims_def decryptUnpacked_def example_again_def example_yumi_def)

lemma example_accepted_inherited:
  "accepted_packet example_prims example_yumi 1000 (toBuffer example_prims ''signed-inherited'')
     = Some example_inherited"
  by (simp add: accepted_packet_def)
     (simp add: example_prims_def decryptUnpacked_def example_inherited_def example_yumi_def)

text \<open>The two responses with the result \<^verbatim>\<open>[1]\<close> are different messages, with different
  hashes.\<close>

lemma example_keys_differ:
  "toHex (drop 16 (nacl_hash example_prims (toBuffer example_prims ''signed-again''))) \<noteq>
   toHex (drop 16 (nacl_hash example_prims (toBuffer example_prims ''signed-result'')))"
  by (simp add: example_prims_def toHex_def byteHex_def hexdigit_def)

lemma example_result_facts:
  "p_y example_result = ''rr''"
  "property_key example_prims (p_rn example_result) = ''a1b2c3d4e5f60718''"
  "JSON_parse example_prims (or_null (p_rr example_result)) = Some (JArr [JNum 1])"
  by (simp_all add: example_result_def property_key_def or_null_def example_prims_def)

lemma example_again_facts:
  "p_y example_again = ''rr''"
  "property_key example_prims (p_rn example_again) = ''a1b2c3d4e5f60718''"
  "JSON_parse example_prims (or_null (p_rr example_again)) = Some (JArr [JNum 1])"
  by (simp_all add: example_again_def property_key_def or_null_def example_prims_def)


text \<open>A callback that throws stays registered, and the next response with its nonce calls
  it again: the callback that throws once is called by both responses.\<close>

lemma throwing_callback_example:
  "invocations ''a1b2c3d4e5f60718''
     (receiveEvents example_prims example_throwing
        [(1000, [], [], toBuffer example_prims ''signed-result''),
         (1005, [], [], toBuffer example_prims ''signed-again'')]) =
     [CallCallback ''a1b2c3d4e5f60718'' throwing_once (JArr [JNum 1]),
      CallCallback ''a1b2c3d4e5f60718'' returning (JArr [JNum 1])]"
proof -
  define b' where
    "b' = fst (onMessage example_prims example_throwing 1000 [] [] (toBuffer example_prims ''signed-result''))"
  have f1: "\<not> seen_truthy example_throwing h" for h
    by (simp add: seen_truthy_def example_throwing_def example_yumi_def)
  have s: "identifier' example_throwing = identifier' example_yumi"
    "timeout example_throwing = timeout example_yumi"
    "boxSecretKey example_throwing = boxSecretKey example_yumi"
    by (simp_all add: example_throwing_def)
  have a1: "accepted_packet example_prims example_throwing 1000 (toBuffer example_prims ''signed-result'')
              = Some example_result"
    using accepted_packet_cong[OF s] example_accepted_result by simp
  have a2: "accepted_packet example_prims example_throwing 1005 (toBuffer example_prims ''signed-again'')
              = Some example_again"
    using accepted_packet_cong[OF s] example_accepted_again by simp
  have c1: "callbacks example_throwing ''a1b2c3d4e5f60718'' = Some throwing_once"
    by (simp add: example_throwing_def)
  have r1: "invocations ''a1b2c3d4e5f60718''
              (snd (onMessage example_prims example_throwing 1000 [] [] (toBuffer example_prims ''signed-result'')))
              = [CallCallback ''a1b2c3d4e5f60718'' throwing_once (JArr [JNum 1])] \<and>
            callbacks b' ''a1b2c3d4e5f60718'' = Some returning"
    using onMessage_response[OF f1 a1 example_result_facts(1,2) c1, of "[]" "[]"]
    by (simp add: example_result_facts(3) b'_def)
  have "seen b' = (seen example_throwing)
          (toHex (drop 16 (nacl_hash example_prims (toBuffer example_prims ''signed-result''))) \<mapsto> 1000)"
    unfolding b'_def using f1 a1 example_result_facts(1) by (rule onMessage_response_seen)
  then have f2: "\<not> seen_truthy b'
          (toHex (drop 16 (nacl_hash example_prims (toBuffer example_prims ''signed-again''))))"
    using example_keys_differ by (simp add: seen_truthy_def example_throwing_def example_yumi_def)
  have a2': "accepted_packet example_prims b' 1005 (toBuffer example_prims ''signed-again'') = Some example_again"
    unfolding b'_def using onMessage_response_accepts[OF f1 a1 example_result_facts(1)] a2 by simp
  have r2: "invocations ''a1b2c3d4e5f60718''
              (snd (onMessage example_prims b' 1005 [] [] (toBuffer example_prims ''signed-again'')))
              = [CallCallback ''a1b2c3d4e5f60718'' returning (JArr [JNum 1])]"
    using onMessage_response[OF f2 a2' example_again_facts(1,2) r1[THEN conjunct2], of "[]" "[]"]
    by (simp add: example_again_facts(3))
  show ?thesis
    using r1 r2 by (simp add: invocations_append b'_def del: invocations_Cons)
qed

text \<open>A response whose nonce is \<^verbatim>\<open>constructor\<close> is not dropped, although no callback is
  registered under that name.\<close>

lemma inherited_nonce_example:
  "callbacks example_yumi ''constructor'' = None \<and>
   filter is_response
     (snd (onMessage example_prims example_yumi 1000 [] [] (toBuffer example_prims ''signed-inherited''))) =
     [RpcResponse (address example_prims example_yumi ''pkB'') (Some (JStr ''constructor'')) (JArr [JNum 1]),
      CallInherited ''constructor''] \<and>
   callbacks (fst (onMessage example_prims example_yumi 1000 [] [] (toBuffer example_prims ''signed-inherited'')))
     = callbacks example_yumi"
proof -
  have y: "p_y example_inherited = ''rr''" by (simp add: example_inherited_def)
  have k: "property_key example_prims (p_rn example_inherited) = ''constructor''"
    by (simp add: example_inherited_def property_key_def)
  have c: "callbacks example_yumi ''constructor'' = None" by (simp add: example_yumi_def)
  have i: "inherited ''constructor''" by (simp add: inherited_def object_prototype_def)
  have j: "JSON_parse example_prims (or_null (p_rr example_inherited)) = Some (JArr [JNum 1])"
    by (simp add: example_inherited_def or_null_def example_prims_def)
  have t: "truthy (JArr [JNum 1])" by simp
  have "p_pk example_inherited = ''pkB''" "p_rn example_inherited = Some (JStr ''constructor'')"
    by (simp_all add: example_inherited_def)
  then show ?thesis
    using onMessage_inherited[OF example_fresh example_accepted_inherited y k c i j t, of "[]" "[]"] c
    by simp
qed



section \<open>Yari: broadcast\<close>

text \<open>With an empty peer table \<^verbatim>\<open>Yari.send\<close> waits for the event \<^verbatim>\<open>newPeer\<close>.\<close>

lemma yari_send_waits:
  "yari_peers y = [] \<Longrightarrow> yari_send P y now rnd msgId msg message = None"
  by (simp add: yari_send_def)

text \<open>The listener of \<^verbatim>\<open>encoded\<close> tests \<^verbatim>\<open>encrypted.length === 2\<close>; its comment reads
  \<^verbatim>\<open>Direct message: [address, encrypted_data]\<close>. Both emitters of the event pass the three
  elements \<^verbatim>\<open>[peer, enc, msgId]\<close>, which the listener answers with the warning alone.\<close>

lemma onEncoded_three:
  "onEncoded P y now n bn [a, enc, msgId] = (y, [WarnInvalidEncryptedFormat], None)"
  by (simp add: onEncoded_def)

lemma broadcastTo_sends_nothing:
  assumes "broadcastTo P now rnd msg msgId (y, out) peer = (y', out')"
  shows "y' = y \<and> filter is_YumiSend out' = filter is_YumiSend out"
  using assms
  by (auto simp: broadcastTo_def onEncoded_three split: option.splits)

lemma broadcast_fold_sends_nothing:
  "foldl (broadcastTo P now rnd msg msgId) (y, out) ps = (y', out') \<Longrightarrow>
     y' = y \<and> filter is_YumiSend out' = filter is_YumiSend out"
proof (induction ps arbitrary: y out)
  case Nil
  then show ?case by simp
next
  case (Cons p ps)
  obtain y1 out1 where s: "broadcastTo P now rnd msg msgId (y, out) p = (y1, out1)"
    by force
  have 1: "y1 = y \<and> filter is_YumiSend out1 = filter is_YumiSend out"
    using broadcastTo_sends_nothing[OF s] .
  have "foldl (broadcastTo P now rnd msg msgId) (y1, out1) ps = (y', out')"
    using Cons.prems s by simp
  then have "y' = y1 \<and> filter is_YumiSend out' = filter is_YumiSend out1"
    by (rule Cons.IH)
  then show ?case using 1 by simp
qed

text \<open>Whatever the peer table holds, a broadcast calls \<^verbatim>\<open>yumi.send\<close> for no peer, leaves the
  channel as it was and raises nothing.\<close>

lemma yari_broadcast_sends_nothing:
  assumes "yari_send_body P y now rnd msgId msg None = (y', out, err)"
  shows "y' = y \<and> filter is_YumiSend out = [] \<and> err = None"
proof -
  obtain y1 out1 where
    f: "foldl (broadcastTo P now rnd msg msgId) (y, []) (map fst (yari_peers y)) = (y1, out1)"
    by force
  have "y1 = y \<and> filter is_YumiSend out1 = filter is_YumiSend []"
    using f by (rule broadcast_fold_sends_nothing)
  then show ?thesis using assms f by (simp add: yari_send_body_def)
qed

text \<open>The listener given the two elements of its comment does send: in the example overlay
  the channel knows the peer, and \<^verbatim>\<open>yumi.send\<close> returns without an error.\<close>

lemma example_address_nonempty: "address example_prims example_yumi ''pkB'' \<noteq> []"
  by (simp add: address_def encodeaddress_def example_prims_def toHex_def byteHex_def)

lemma example_send_known:
  "snd (send example_prims example_known 1000 [1] [2]
          (JStr (address example_prims example_yumi ''pkB'')) (Some (JStr ''ciphertext''))) = None"
proof -
  have a: "address example_prims example_known ''pkB'' = address example_prims example_yumi ''pkB''"
    by (simp add: address_def)
  have p: "map_of (peers example_known) (address example_prims example_yumi ''pkB'')
             = Some \<lparr>pi_pk = ''pkB'', pi_ek = ''ekB'', pi_last = 900\<rparr>"
    by (simp add: example_known_def)
  have e: "\<exists>enc. encryptPacket example_prims example_known [2] ''pkB'' pkt = Inr enc" for pkt
    unfolding encryptPacket_def Let_def a p by (simp add: example_prims_def)
  let ?pkt = "makePacket example_prims example_known 1000 [1]
                \<lparr>pa_y = ''m'', pa_v = Some (JSON_stringify example_prims (JStr ''ciphertext'')),
                 pa_c = None, pa_a = None, pa_rn = None, pa_rr = None\<rparr>"
  obtain enc where "encryptPacket example_prims example_known [2] ''pkB'' ?pkt = Inr enc"
    using e by blast
  then show ?thesis
    using example_address_nonempty
    by (simp add: send_def Let_def property_key_def p lookup_own)
qed

lemma onEncoded_two_example:
  "\<exists>y'. onEncoded example_prims example_yari 1000 [1] [2]
          [JStr (address example_prims example_yumi ''pkB''), JStr ''ciphertext''] =
        (y', [YumiSend (JStr (address example_prims example_yumi ''pkB'')) (JStr ''ciphertext'')], None)"
  using example_send_known
  by (simp add: onEncoded_def example_yari_def split_beta)

lemma example_sea:
  "sea_secret example_prims epub pair = Some (''secret-'' @ epub)"
  "sea_encrypt example_prims v secret = Some (JStr ''ciphertext'')"
  by (simp_all add: example_prims_def)

text \<open>
  Claim C9. For every overlay broadcast: with an empty overlay peer table the send waits for
  the first \<^verbatim>\<open>peer\<close> handshake; with \<open>k\<close> entries in the table exactly \<open>k\<close> directed sends are
  emitted, one per peer, each carrying the value encrypted with the secret derived from that
  peer's \<^verbatim>\<open>epub\<close> and the local key pair, and a failure for one peer does not abort the others.

  The code computes the secret and the ciphertext for every peer, and a failure is logged for
  that peer alone; but the directed send is never made. In the example overlay the table has
  one peer, whose keys the channel knows, and encryption succeeds: the broadcast of \<^verbatim>\<open>[1]\<close>
  returns with the overlay unchanged, having produced the warning about the format and the
  log line of a successful encryption, and no call of \<^verbatim>\<open>yumi.send\<close>: zero directed sends where
  the claim says one.
\<close>

theorem yari_broadcast_example:
  "yari_send example_prims example_yari 1000 (\<lambda>peer. ([1], [2])) ''1000-me-k3j9x2a'' (JArr [JNum 1]) None =
     Some (example_yari,
           [WarnInvalidEncryptedFormat, LogEncrypted (address example_prims example_yumi ''pkB'')],
           None)"
  by (simp add: yari_send_def yari_send_body_def broadcastTo_def onEncoded_three example_yari_def
      example_sea)

end
